theory Spec2Isabelle
  imports Main "HOL-Library.Multiset"
begin

section \<open>Assertions and iteration\<close>

text \<open>
  \<^verbatim>\<open>ts.Debug.assert(cond, message)\<close> throws when \<open>cond\<close> is falsy. A thrown
  exception is the left summand of the result; \<open>Inr ()\<close> is a normal return. A
  \<open>TypeError\<close> is what JavaScript raises when a property of \<open>undefined\<close> is read.
\<close>

datatype failure = AssertionFailure string | TypeError string

definition assert :: "bool \<Rightarrow> string \<Rightarrow> failure + unit" where
  "assert cond message = (if cond then Inr () else Inl (AssertionFailure message))"

text \<open>Two statements in sequence: the second runs only when the first returned.\<close>

definition andThen :: "failure + unit \<Rightarrow> failure + unit \<Rightarrow> failure + unit" where
  "andThen first second = (case first of Inl e \<Rightarrow> Inl e | Inr _ \<Rightarrow> second)"

text \<open>
  \<^verbatim>\<open>collection.forEach(callback)\<close> for a callback that only asserts: the elements
  are visited in order and the first failure ends the loop.
\<close>

fun forEach :: "'a list \<Rightarrow> ('a \<Rightarrow> failure + unit) \<Rightarrow> failure + unit" where
  "forEach [] callback = Inr ()"
| "forEach (x # xs) callback =
     (case callback x of Inl e \<Rightarrow> Inl e | Inr _ \<Rightarrow> forEach xs callback)"

text \<open>
  A JavaScript \<open>Map\<close> is an association list in insertion order (\<open>get\<close> is
  \<^const>\<open>map_of\<close>, \<open>has\<close> is membership of the key, \<open>size\<close> is the length); a
  \<open>Set\<close> is the list of its elements. \<^verbatim>\<open>m?.forEach(f)\<close> does nothing when \<open>m\<close> is
  \<open>undefined\<close>.
\<close>

definition has :: "('k \<times> 'v) list \<Rightarrow> 'k \<Rightarrow> bool" where
  "has m k = (k \<in> fst ` set m)"

definition forEachOpt :: "'a list option \<Rightarrow> ('a \<Rightarrow> failure + unit) \<Rightarrow> failure + unit" where
  "forEachOpt collection callback =
     (case collection of None \<Rightarrow> Inr () | Some xs \<Rightarrow> forEach xs callback)"

text \<open>A result that is a normal return or an assertion failure, not another exception.\<close>

definition assertsOnly :: "failure + 'a \<Rightarrow> bool" where
  "assertsOnly r = (case r of Inl (TypeError _) \<Rightarrow> False | _ \<Rightarrow> True)"

section \<open>Document registry verifier\<close>

type_synonym path = string

datatype script_kind = Unknown | JS | JSX | TS | TSX | External | JSON | Deferred

text \<open>
  Of a \<open>DocumentRegistryEntry\<close> the verifier reads \<open>sourceFile.scriptKind\<close> and
  \<open>languageServiceRefCount\<close>. A bucket entry is either one such entry
  (\<open>ts.isDocumentRegistryEntry\<close>) or a map from script kind to entry.
\<close>

record document_registry_entry =
  scriptKind :: script_kind
  languageServiceRefCount :: nat

datatype bucket_entry =
    SingleEntry document_registry_entry
  | EntryByKind "(script_kind \<times> document_registry_entry) list"

type_synonym document_registry = "(string \<times> (path \<times> bucket_entry) list) list"

type_synonym document_registry_expected_stats =
  "(string \<times> (path \<times> (script_kind \<times> nat) list) list) list"

definition verifyDocumentRegistryStats ::
  "document_registry \<Rightarrow> document_registry_expected_stats \<Rightarrow> failure + unit" where
  "verifyDocumentRegistryStats documentRegistry stats =
     andThen
       (forEach documentRegistry (\<lambda>(key, bucketEntries).
          let statsByPath = map_of stats key in
          andThen
            (forEach bucketEntries (\<lambda>(path, entry).
               let expected = (case statsByPath of None \<Rightarrow> None | Some byPath \<Rightarrow> map_of byPath path) in
               case entry of
                 SingleEntry e \<Rightarrow>
                   assert
                     (case expected of
                        None \<Rightarrow> False
                      | Some ex \<Rightarrow>
                          length ex = 1 \<and> has ex (scriptKind e) \<and>
                          map_of ex (scriptKind e) = Some (languageServiceRefCount e))
                     ''Document registry has unexpected language service ref count''
               | EntryByKind byKind \<Rightarrow>
                   andThen
                     (forEach byKind (\<lambda>(kind, real).
                        assert
                          (Some (languageServiceRefCount real) =
                             (case expected of None \<Rightarrow> None | Some ex \<Rightarrow> map_of ex kind))
                          ''Document registry has unexpected language service ref count''))
                     (forEachOpt expected (\<lambda>(kind, value).
                        assert (has byKind kind)
                          ''Document registry expected language service ref count''))))
            (forEachOpt statsByPath (\<lambda>(path, _).
               assert (has bucketEntries path)
                 ''Document registry does not contain entry for''))))
       (forEach stats (\<lambda>(key, _).
          assert (has documentRegistry key)
            ''Document registry does not contain entry for key''))"

text \<open>The tally of one bucket key and path, and the count it holds for a script kind.\<close>

definition tallyOf ::
  "document_registry_expected_stats \<Rightarrow> string \<Rightarrow> path \<Rightarrow> (script_kind \<times> nat) list option" where
  "tallyOf stats key path =
     (case map_of stats key of None \<Rightarrow> None | Some byPath \<Rightarrow> map_of byPath path)"

definition tallyCount ::
  "document_registry_expected_stats \<Rightarrow> string \<Rightarrow> path \<Rightarrow> script_kind \<Rightarrow> nat option" where
  "tallyCount stats key path kind =
     (case tallyOf stats key path of None \<Rightarrow> None | Some ex \<Rightarrow> map_of ex kind)"

section \<open>Resolution cache: data model\<close>

text \<open>
  Objects compared by reference (\<open>===\<close>) are identified by a reference of type
  \<open>ref\<close>; their fields live in a heap, a function from references to records. The
  live resolutions and the \<open>ExpectedResolution\<close> objects of the verifier are in two
  heaps: an \<open>ExpectedResolution\<close> never shares identity with a real resolution.
\<close>

type_synonym ref = nat

datatype resolution_mode = ESNext | CommonJS

text \<open>
  A \<open>ModeAwareCache\<close> maps (name, mode) to a value; the mode may be \<open>undefined\<close>.
\<close>

type_synonym 'a mode_aware_cache = "((string \<times> resolution_mode option) \<times> 'a) list"

text \<open>
  \<open>resolvedModule\<close> and \<open>resolvedTypeReferenceDirective\<close> are objects of which the
  verifier reads \<open>resolvedFileName\<close> only.
\<close>

datatype resolved = Resolved (resolvedFileNameOf: "string option")

record directory_watch =
  refCount :: nat
  nonRecursive :: "bool option"

text \<open>
  \<open>FileWatcherOfAffectingLocation\<close>: the declaration of the type is not part of the
  sources at hand. The verifier compares \<open>resolutions\<close> and \<open>files\<close> with \<open>===\<close>, so
  their types \<open>'r\<close> and \<open>'f\<close> are left open: a value of these types is what \<open>===\<close>
  distinguishes.
\<close>

record ('r, 'f) file_watcher =
  resolutions :: 'r
  files :: 'f
  symlinks :: "string list option"

text \<open>
  \<open>ResolutionWithFailedLookupLocations\<close>, with the fields the verifier reads or copies.
  \<open>refCount\<close> and \<open>files\<close> are optional in the source; an absent \<open>isInvalidated\<close>
  reads as \<open>False\<close>.
\<close>

record resolution =
  resolvedModule :: "resolved option"
  resolvedTypeReferenceDirective :: "resolved option"
  failedLookupLocations :: "string list option"
  affectingLocations :: "string list option"
  node10Result :: "string option"
  isInvalidated :: bool
  refCount :: "nat option"
  files :: "path list option"

text \<open>
  \<open>ts.ResolutionCache\<close>, live or shadow: the maps and sets the verifier reads, and
  \<open>objects\<close>, the heap of the resolution objects the cache refers to.
\<close>

record ('r, 'f) resolution_cache =
  objects :: "ref \<Rightarrow> resolution"
  resolvedModuleNames :: "(path \<times> ref mode_aware_cache) list"
  resolvedTypeReferenceDirectives :: "(path \<times> ref mode_aware_cache) list"
  resolvedLibraries :: "(string \<times> ref) list"
  resolvedFileToResolution :: "(path \<times> ref list) list"
  resolutionsWithFailedLookups :: "ref list"
  resolutionsWithOnlyAffectingLocations :: "ref list"
  directoryWatchesOfFailedLookups :: "(string \<times> directory_watch) list"
  fileWatchesOfAffectingLocations :: "(string \<times> ('r, 'f) file_watcher) list"
  rootDirForResolution :: string

datatype resolution_info =
  ResolutionInfo string path string "resolution_mode option"

definition getResolvedModuleFileName :: "resolution \<Rightarrow> string option" where
  "getResolvedModuleFileName r =
     (case resolvedModule r of None \<Rightarrow> None | Some m \<Rightarrow> resolvedFileNameOf m)"

definition getResolvedTypeRefFileName :: "resolution \<Rightarrow> string option" where
  "getResolvedTypeRefFileName r =
     (case resolvedTypeReferenceDirective r of None \<Rightarrow> None | Some d \<Rightarrow> resolvedFileNameOf d)"

text \<open>\<open>Map.set\<close>: an existing key keeps its place, a new key goes to the end.\<close>

fun mapSet :: "'k \<Rightarrow> 'v \<Rightarrow> ('k \<times> 'v) list \<Rightarrow> ('k \<times> 'v) list" where
  "mapSet k v [] = [(k, v)]"
| "mapSet k v ((k', v') # m) = (if k' = k then (k, v) # m else (k', v') # mapSet k v m)"

section \<open>Resolution cache: the comparisons\<close>

definition verifySet ::
  "string list option \<Rightarrow> string list option \<Rightarrow> string \<Rightarrow> failure + unit" where
  "verifySet expected actual caption =
     andThen
       (forEachOpt expected (\<lambda>e.
          assert (case actual of None \<Rightarrow> False | Some a \<Rightarrow> e \<in> set a)
            (caption @ '':: Expected should be present in actual'')))
       (forEachOpt actual (\<lambda>a.
          assert (case expected of None \<Rightarrow> False | Some e \<Rightarrow> a \<in> set e)
            (caption @ '':: Actual should be present in expected'')))"

definition verifyMap ::
  "(string \<times> 'e) list option \<Rightarrow> (string \<times> 'a) list option \<Rightarrow>
   ('e option \<Rightarrow> 'a option \<Rightarrow> string \<Rightarrow> failure + unit) \<Rightarrow> string \<Rightarrow> failure + unit" where
  "verifyMap expected actual verifyValue caption =
     andThen
       (forEachOpt expected (\<lambda>(path, e).
          verifyValue (Some e) (case actual of None \<Rightarrow> None | Some a \<Rightarrow> map_of a path)
            (caption @ '':: '' @ path)))
       (forEachOpt actual (\<lambda>(path, a).
          verifyValue (case expected of None \<Rightarrow> None | Some e \<Rightarrow> map_of e path) (Some a)
            (caption @ '':: '' @ path)))"

text \<open>
  \<open>verifyResolutionSet\<close> reads the two cross-reference maps of the enclosing
  \<open>verifyResolutionCache\<close>; here they are arguments. \<open>actual.has(undefined)\<close> is false.
\<close>

definition verifyResolutionSet ::
  "(ref \<times> ref) list \<Rightarrow> (ref \<times> ref) list \<Rightarrow>
   ref list option \<Rightarrow> ref list option \<Rightarrow> string \<Rightarrow> failure + unit" where
  "verifyResolutionSet expectedToResolution resolutionToExpected expected actual caption =
     andThen
       (forEachOpt expected (\<lambda>resolution.
          assert
            (case actual of
               None \<Rightarrow> False
             | Some a \<Rightarrow>
                 (case map_of expectedToResolution resolution of
                    None \<Rightarrow> False
                  | Some r \<Rightarrow> r \<in> set a))
            (caption @ '':: Expected resolution should be present in actual resolutions'')))
       (forEachOpt actual (\<lambda>resolution.
          assert
            (case expected of
               None \<Rightarrow> False
             | Some e \<Rightarrow>
                 (case map_of resolutionToExpected resolution of
                    None \<Rightarrow> False
                  | Some x \<Rightarrow> x \<in> set e))
            (caption @ '':: Actual resolution should be present in expected resolutions'')))"

definition verifyMapOfResolutionSet ::
  "(ref \<times> ref) list \<Rightarrow> (ref \<times> ref) list \<Rightarrow>
   (path \<times> ref list) list option \<Rightarrow> (path \<times> ref list) list option \<Rightarrow> string \<Rightarrow>
   failure + unit" where
  "verifyMapOfResolutionSet expectedToResolution resolutionToExpected expected actual caption =
     verifyMap expected actual
       (verifyResolutionSet expectedToResolution resolutionToExpected) caption"

definition verifyDirectoryWatchesOfFailedLookups ::
  "(string \<times> directory_watch) list \<Rightarrow> (string \<times> directory_watch) list \<Rightarrow> failure + unit" where
  "verifyDirectoryWatchesOfFailedLookups expected actual =
     verifyMap (Some expected) (Some actual)
       (\<lambda>expected actual caption.
          andThen
            (assert
               (map_option directory_watch.refCount expected =
                map_option directory_watch.refCount actual)
               (caption @ '':: refCount''))
            (andThen
               (assert
                  (case expected of None \<Rightarrow> False | Some e \<Rightarrow> directory_watch.refCount e \<noteq> 0)
                  (caption @ '':: expected refCount to be non zero''))
               (assert
                  ((case expected of None \<Rightarrow> None | Some e \<Rightarrow> nonRecursive e) =
                   (case actual of None \<Rightarrow> None | Some a \<Rightarrow> nonRecursive a))
                  (caption @ '':: nonRecursive''))))
       ''directoryWatchesOfFailedLookups''"

definition verifyFileWatcherOfAffectingLocation ::
  "('r, 'f) file_watcher option \<Rightarrow> ('r, 'f) file_watcher option \<Rightarrow> string \<Rightarrow> failure + unit" where
  "verifyFileWatcherOfAffectingLocation expected actual caption =
     andThen
       (assert (map_option resolutions expected = map_option resolutions actual)
          (caption @ '':: resolutions''))
       (andThen
          (assert
             (map_option file_watcher.files expected = map_option file_watcher.files actual)
             (caption @ '':: files''))
          (verifySet
             (case expected of None \<Rightarrow> None | Some e \<Rightarrow> symlinks e)
             (case actual of None \<Rightarrow> None | Some a \<Rightarrow> symlinks a)
             (caption @ '':: symlinks'')))"

definition verifyFileWatchesOfAffectingLocations ::
  "(string \<times> ('r, 'f) file_watcher) list \<Rightarrow> (string \<times> ('r, 'f) file_watcher) list \<Rightarrow>
   failure + unit" where
  "verifyFileWatchesOfAffectingLocations expected actual =
     verifyMap (Some expected) (Some actual) verifyFileWatcherOfAffectingLocation
       ''fileWatchesOfAffectingLocations''"

definition verifyResolutionIsInCache ::
  "ref \<Rightarrow> string \<Rightarrow> ref mode_aware_cache option \<Rightarrow> ref \<Rightarrow> string \<Rightarrow>
   resolution_mode option \<Rightarrow> string \<Rightarrow> failure + unit" where
  "verifyResolutionIsInCache emptyResolution cacheType cache resolution name mode fileName =
     (if resolution \<noteq> emptyResolution then
        assert
          ((case cache of None \<Rightarrow> None | Some c \<Rightarrow> map_of c (name, mode)) = Some resolution)
          (cacheType @ '':: '' @ name @ '' Expected resolution in program to be in cache '' @ fileName)
      else
        assert
          (\<not> (case cache of None \<Rightarrow> False | Some c \<Rightarrow> has c (name, mode)))
          (cacheType @ '':: '' @ name @ '' Ambient moduleResolution, should not be watched '' @ fileName))"

section \<open>The comparison of file watches, as the spec words it\<close>

text \<open>
  The spec says that a file watch is compared by its ``associated resolution-set
  identity via cross-reference, associated file set identity, associated symlink set by
  pure value equality''. This definition follows these words, for watches that hold the
  set of their resolutions and the set of their files: the resolution sets are compared
  through the cross-reference maps, as \<open>verifyResolutionSet\<close> does.
\<close>

definition verifyFileWatcherOfAffectingLocation_spec ::
  "(ref \<times> ref) list \<Rightarrow> (ref \<times> ref) list \<Rightarrow>
   (ref list, path list) file_watcher option \<Rightarrow> (ref list, path list) file_watcher option \<Rightarrow>
   string \<Rightarrow> failure + unit" where
  "verifyFileWatcherOfAffectingLocation_spec expectedToResolution resolutionToExpected
       expected actual caption =
     andThen
       (verifyResolutionSet expectedToResolution resolutionToExpected
          (map_option resolutions expected) (map_option resolutions actual)
          (caption @ '':: resolutions''))
       (andThen
          (assert
             (map_option file_watcher.files expected = map_option file_watcher.files actual)
             (caption @ '':: files''))
          (verifySet
             (case expected of None \<Rightarrow> None | Some e \<Rightarrow> symlinks e)
             (case actual of None \<Rightarrow> None | Some a \<Rightarrow> symlinks a)
             (caption @ '':: symlinks'')))"

section \<open>The program, the host and the shadow cache\<close>

type_synonym compiler_options = "(string \<times> string) list"

datatype lib_resolution = LibResolution (libResolution: ref) (libActual: string)

text \<open>
  A source file, with the fields \<open>fileName\<close>, \<open>path\<close>, \<open>resolvedPath\<close>,
  \<open>impliedNodeFormat\<close> and \<open>text\<close> of the source.
\<close>

record source_file =
  sourceFileName :: string
  sourcePath :: path
  resolvedPath :: path
  impliedNodeFormat :: "resolution_mode option"
  sourceText :: string

text \<open>
  Modelled from the spec: the \<open>Program\<close> abstraction, whose implementation is not part
  of the sources at hand. A program enumerates its source files; for each file it holds
  the resolved module and type-reference per (name, mode); it holds the automatic
  type-directive resolutions, the resolved library references and the compiler options.
\<close>

record program =
  sourceFiles :: "source_file list"
  resolvedModules :: "(path \<times> ref mode_aware_cache) list"
  resolvedTypeReferenceDirectiveNames :: "(path \<times> ref mode_aware_cache) list"
  automaticTypeDirectiveResolutions :: "ref mode_aware_cache"
  resolvedLibReferences :: "(string \<times> lib_resolution) list option"
  compilerOptions :: compiler_options

text \<open>
  Modelled from the spec: \<open>getSourceFileByPath\<close> of the \<open>Program\<close> abstraction, which
  is not part of the sources at hand: the source file that has the path, if any.
\<close>

definition getSourceFileByPath :: "program \<Rightarrow> path \<Rightarrow> source_file option" where
  "getSourceFileByPath prog p = find (\<lambda>f. sourcePath f = p) (sourceFiles prog)"

text \<open>
  Modelled from the spec: \<open>getResolvedModule\<close> and \<open>getResolvedTypeReferenceDirective\<close>
  of the \<open>Program\<close> abstraction, which are not part of the sources at hand: the
  resolution the program holds for (file, name, mode). The verifier calls
  \<open>getResolvedModule(getSourceFileByPath(path)!, name, mode)\<close>; when there is no such
  source file the query reads the path of \<open>undefined\<close>, which throws.
\<close>

definition getResolvedModule ::
  "program \<Rightarrow> source_file option \<Rightarrow> string \<Rightarrow> resolution_mode option \<Rightarrow> failure + ref option" where
  "getResolvedModule prog file name mode =
     (case file of
        None \<Rightarrow> Inl (TypeError ''Cannot read properties of undefined (reading path)'')
      | Some f \<Rightarrow>
          Inr (case map_of (resolvedModules prog) (sourcePath f) of
                 None \<Rightarrow> None
               | Some c \<Rightarrow> map_of c (name, mode)))"

definition getResolvedTypeReferenceDirective ::
  "program \<Rightarrow> source_file option \<Rightarrow> string \<Rightarrow> resolution_mode option \<Rightarrow> failure + ref option" where
  "getResolvedTypeReferenceDirective prog file name mode =
     (case file of
        None \<Rightarrow> Inl (TypeError ''Cannot read properties of undefined (reading path)'')
      | Some f \<Rightarrow>
          Inr (case map_of (resolvedTypeReferenceDirectiveNames prog) (sourcePath f) of
                 None \<Rightarrow> None
               | Some c \<Rightarrow> map_of c (name, mode)))"

text \<open>
  Modelled from the spec: \<open>forEachResolvedModule\<close> and
  \<open>forEachResolvedTypeReferenceDirective\<close> of the \<open>Program\<close> abstraction, which are
  not part of the sources at hand. \<open>forEachResolvedModule(callback)\<close> calls back with
  (resolution, name, mode, filePath) for every file and every entry of the file; the
  list is the sequence of these calls.
\<close>

definition forEachResolution ::
  "(path \<times> ref mode_aware_cache) list \<Rightarrow> (ref \<times> string \<times> resolution_mode option \<times> path) list" where
  "forEachResolution resolutionCache =
     concat (map (\<lambda>(filePath, resolutions).
       map (\<lambda>((name, mode), resolution). (resolution, name, mode, filePath)) resolutions)
       resolutionCache)"

definition forEachResolvedModule ::
  "program \<Rightarrow> (ref \<times> string \<times> resolution_mode option \<times> path) list" where
  "forEachResolvedModule prog = forEachResolution (resolvedModules prog)"

definition forEachResolvedTypeReferenceDirective ::
  "program \<Rightarrow> (ref \<times> string \<times> resolution_mode option \<times> path) list" where
  "forEachResolvedTypeReferenceDirective prog =
     forEachResolution (resolvedTypeReferenceDirectiveNames prog)"

text \<open>
  The host adapter and the utilities of the \<open>ts\<close> namespace the verifier calls, and
  the \<open>ts.emptyResolution\<close> sentinel object; none is part of the sources at hand, so
  they are parameters.
\<close>

record env =
  getCurrentDirectory :: string
  toPath :: "string \<Rightarrow> path"
  getAutomaticTypeDirectiveContainingFile :: "compiler_options \<Rightarrow> string \<Rightarrow> string"
  getInferredLibraryNameResolveFrom :: "compiler_options \<Rightarrow> string \<Rightarrow> string \<Rightarrow> string"
  getLibraryNameFromLibFileName :: "string \<Rightarrow> string"
  emptyResolution :: ref

text \<open>
  The operations of the shadow cache (\<open>ts.createResolutionCache\<close> and the methods of
  the cache it returns) are not part of the sources at hand either. Each is a parameter:
  a function on the state of the shadow cache that returns normally or throws.
\<close>

type_synonym ('r, 'f) cache_op =
  "('r, 'f) resolution_cache \<Rightarrow> (failure + unit) \<times> ('r, 'f) resolution_cache"

record ('r, 'f) cache_ops =
  createResolutionCache :: "string \<Rightarrow> ('r, 'f) resolution_cache"
  startCachingPerDirectoryResolution :: "('r, 'f) cache_op"
  watchFailedLookupLocationsOfExternalModuleResolutions ::
    "string \<Rightarrow> ref \<Rightarrow> path \<Rightarrow> string option \<Rightarrow> bool \<Rightarrow> ('r, 'f) cache_op"
  finishCachingPerDirectoryResolution ::
    "program option \<Rightarrow> program option \<Rightarrow> ('r, 'f) cache_op"
  removeResolutionsOfFile :: "path \<Rightarrow> ('r, 'f) cache_op"

section \<open>Program structure\<close>









text \<open>
  \<open>array.sort(compare)\<close> is stable. For a comparison that is a total preorder the
  result is the one sorted permutation that keeps equal elements in their order, which
  this insertion sort computes; for another comparison JavaScript does not fix the
  result.
\<close>

fun insertSorted :: "('a \<Rightarrow> 'a \<Rightarrow> int) \<Rightarrow> 'a \<Rightarrow> 'a list \<Rightarrow> 'a list" where
  "insertSorted compare x [] = [x]"
| "insertSorted compare x (y # ys) =
     (if compare x y \<le> 0 then x # y # ys else y # insertSorted compare x ys)"










section \<open>Stateful code\<close>

text \<open>
  A procedure takes the state and returns its result, or the exception thrown, with the
  state it leaves behind.
\<close>

definition returnS :: "'a \<Rightarrow> 's \<Rightarrow> (failure + 'a) \<times> 's" where
  "returnS x s = (Inr x, s)"

definition bindS ::
  "('s \<Rightarrow> (failure + 'a) \<times> 's) \<Rightarrow> ('a \<Rightarrow> 's \<Rightarrow> (failure + 'b) \<times> 's) \<Rightarrow>
   's \<Rightarrow> (failure + 'b) \<times> 's" where
  "bindS m k s = (case m s of (Inl e, s') \<Rightarrow> (Inl e, s') | (Inr x, s') \<Rightarrow> k x s')"

definition thenS ::
  "('s \<Rightarrow> (failure + unit) \<times> 's) \<Rightarrow> ('s \<Rightarrow> (failure + 'b) \<times> 's) \<Rightarrow>
   's \<Rightarrow> (failure + 'b) \<times> 's" where
  "thenS m k = bindS m (\<lambda>_. k)"

text \<open>A check that reads the state and asserts.\<close>

definition check :: "('s \<Rightarrow> failure + 'a) \<Rightarrow> 's \<Rightarrow> (failure + 'a) \<times> 's" where
  "check c s = (c s, s)"

fun forEachS ::
  "'a list \<Rightarrow> ('a \<Rightarrow> 's \<Rightarrow> (failure + unit) \<times> 's) \<Rightarrow> 's \<Rightarrow> (failure + unit) \<times> 's" where
  "forEachS [] callback s = (Inr (), s)"
| "forEachS (x # xs) callback s =
     (case callback x s of
        (Inl e, s') \<Rightarrow> (Inl e, s')
      | (Inr _, s') \<Rightarrow> forEachS xs callback s')"

text \<open>
  The state of \<open>verifyResolutionCache\<close>: the live cache and program it is given, the
  shadow cache \<open>expected\<close> it creates, its three maps, and the number of
  \<open>ExpectedResolution\<close> objects it has created (the next free reference of the
  shadow heap).
\<close>

record ('r, 'f) world =
  actual :: "('r, 'f) resolution_cache"
  actualProgram :: program
  expected :: "('r, 'f) resolution_cache"
  expectedToResolution :: "(ref \<times> ref) list"
  resolutionToExpected :: "(ref \<times> ref) list"
  resolutionToRefs :: "(ref \<times> resolution_info list) list"
  created :: nat

text \<open>A call of an operation of the shadow cache.\<close>

definition onExpected ::
  "('r, 'f) cache_op \<Rightarrow> ('r, 'f) world \<Rightarrow> (failure + unit) \<times> ('r, 'f) world" where
  "onExpected operation w =
     (case operation (expected w) of (r, c) \<Rightarrow> (r, w\<lparr>expected := c\<rparr>))"

section \<open>Resolution cache verifier\<close>

text \<open>
  \<open>collectResolution\<close>: the first time a live resolution is seen, a new
  \<open>ExpectedResolution\<close> is created from its fields and the two objects are linked in
  both cross-reference maps; later times the reference is appended to the list kept for
  the resolution. Either way the shadow cache is told to watch the expected resolution
  for the file.
\<close>

definition collectResolution ::
  "('r, 'f) cache_ops \<Rightarrow> string \<Rightarrow> path \<Rightarrow> ref \<Rightarrow> string option \<Rightarrow> string \<Rightarrow>
   resolution_mode option \<Rightarrow> bool \<Rightarrow> ('r, 'f) world \<Rightarrow> (failure + ref) \<times> ('r, 'f) world" where
  "collectResolution ops cacheType fileName resolved resolvedFileName name mode
       deferWatchingNonRelativeResolution =
     bindS
       (\<lambda>w. case map_of (resolutionToRefs w) resolved of
          Some existing \<Rightarrow>
            ((case map_of (resolutionToExpected w) resolved of
                None \<Rightarrow> Inl (TypeError ''Cannot read properties of undefined'')
              | Some expectedResolution \<Rightarrow> Inr expectedResolution),
             w\<lparr>resolutionToRefs :=
                 mapSet resolved (existing @ [ResolutionInfo cacheType fileName name mode])
                   (resolutionToRefs w)\<rparr>)
        | None \<Rightarrow>
            (let expectedResolution = created w;
                 r = objects (actual w) resolved
             in (Inr expectedResolution,
                 w\<lparr>resolutionToRefs :=
                     mapSet resolved [ResolutionInfo cacheType fileName name mode]
                       (resolutionToRefs w),
                   created := Suc (created w),
                   expected := (expected w)\<lparr>objects := (objects (expected w))
                     (expectedResolution :=
                        \<lparr>resolvedModule = resolvedModule r,
                         resolvedTypeReferenceDirective = resolvedTypeReferenceDirective r,
                         failedLookupLocations = failedLookupLocations r,
                         affectingLocations = affectingLocations r,
                         node10Result = node10Result r,
                         isInvalidated = False,
                         refCount = None,
                         files = None\<rparr>)\<rparr>,
                   expectedToResolution :=
                     mapSet expectedResolution resolved (expectedToResolution w),
                   resolutionToExpected :=
                     mapSet resolved expectedResolution (resolutionToExpected w)\<rparr>)))
       (\<lambda>expectedResolution.
          thenS
            (onExpected
               (watchFailedLookupLocationsOfExternalModuleResolutions ops name
                  expectedResolution fileName resolvedFileName
                  deferWatchingNonRelativeResolution))
            (returnS expectedResolution))"

text \<open>
  \<open>collectResolutionToRefFromCache\<close>. The loop over the live mode-aware cache keeps the
  local variable \<open>expectedCache\<close> beside the state; the mode-aware cache it creates is
  the one stored under \<open>fileName\<close> in \<open>storeExpected\<close>, so each \<open>expectedCache.set\<close>
  is written to the store. \<open>storeExpected\<close> is the update of the field of the shadow
  cache that is passed (\<open>resolvedModuleNames\<close> or \<open>resolvedTypeReferenceDirectives\<close>).
\<close>

definition collectResolutionToRefFromCache ::
  "('r, 'f) cache_ops \<Rightarrow> path \<Rightarrow> string \<Rightarrow> path \<Rightarrow> ref mode_aware_cache option \<Rightarrow>
   (resolution \<Rightarrow> string option) \<Rightarrow> bool \<Rightarrow>
   (((path \<times> ref mode_aware_cache) list \<Rightarrow> (path \<times> ref mode_aware_cache) list) \<Rightarrow>
      ('r, 'f) resolution_cache \<Rightarrow> ('r, 'f) resolution_cache) \<Rightarrow>
   (string \<Rightarrow> resolution_mode option \<Rightarrow> failure + ref option) \<Rightarrow>
   ('r, 'f) world \<Rightarrow> (failure + unit) \<times> ('r, 'f) world" where
  "collectResolutionToRefFromCache ops inferredTypesPath cacheType fileName cache
       getResolvedFileName deferWatchingNonRelativeResolution storeExpected
       getProgramResolutions =
     thenS
       (check (\<lambda>w.
          assert
            (getSourceFileByPath (actualProgram w) fileName \<noteq> None \<or>
             inferredTypesPath = fileName)
            (cacheType @ '' '' @ fileName @
               '' Expect cache for file in program or auto type ref'')))
       (\<lambda>w. case forEachS (case cache of None \<Rightarrow> [] | Some c \<Rightarrow> c)
                (\<lambda>((name, mode), resolved) (expectedCache, w).
                   case collectResolution ops cacheType fileName resolved
                          (getResolvedFileName (objects (actual w) resolved)) name mode
                          deferWatchingNonRelativeResolution w of
                     (Inl e, w1) \<Rightarrow> (Inl e, (expectedCache, w1))
                   | (Inr expectedResolution, w1) \<Rightarrow>
                       (let cache1 = mapSet (name, mode) expectedResolution
                              (case expectedCache of None \<Rightarrow> [] | Some c \<Rightarrow> c)
                        in (case getProgramResolutions name mode of
                              Inl e \<Rightarrow> Inl e
                            | Inr programResolution \<Rightarrow>
                                assert (Some resolved = programResolution)
                                  (cacheType @ '' '' @ fileName @ '' '' @ name @
                                     '' Expected resolution in cache to be matched to that in the program''),
                            (Some cache1,
                             w1\<lparr>expected :=
                                 storeExpected (mapSet fileName cache1) (expected w1)\<rparr>))))
                (None, w) of
          (r, (expectedCache, w')) \<Rightarrow> (r, w'))"

text \<open>
  Lines 209 to 293 of the source: the shadow cache is populated from the live cache
  (modules, type references, libraries), the resolutions of the program are looked up
  in the live cache, and the recording session of the shadow cache is finished.
\<close>

definition inferredTypesPathOf :: "env \<Rightarrow> program \<Rightarrow> path" where
  "inferredTypesPathOf host prog =
     toPath host
       (getAutomaticTypeDirectiveContainingFile host (compilerOptions prog)
          (getCurrentDirectory host))"

definition verifyProgramResolutions ::
  "env \<Rightarrow> bool \<Rightarrow> ('r, 'f) world \<Rightarrow> failure + unit" where
  "verifyProgramResolutions host userResolvedModuleNames w =
     (let inferredTypesPath = inferredTypesPathOf host (actualProgram w) in
      andThen
        (if \<not> userResolvedModuleNames then
           forEach (forEachResolvedModule (actualProgram w))
             (\<lambda>(resolution, name, mode, filePath).
                verifyResolutionIsInCache (emptyResolution host) ''Modules''
                  (map_of (resolvedModuleNames (actual w)) filePath)
                  resolution name mode filePath)
         else Inr ())
        (andThen
           (forEach (forEachResolvedTypeReferenceDirective (actualProgram w))
              (\<lambda>(resolution, name, mode, filePath).
                 verifyResolutionIsInCache (emptyResolution host) ''TypeRefs''
                   (map_of (resolvedTypeReferenceDirectives (actual w)) filePath)
                   resolution name mode filePath))
           (forEach (automaticTypeDirectiveResolutions (actualProgram w))
              (\<lambda>((name, mode), resolution).
                 verifyResolutionIsInCache (emptyResolution host) ''AutoTypeRefs''
                   (map_of (resolvedTypeReferenceDirectives (actual w)) inferredTypesPath)
                   resolution name mode inferredTypesPath))))"

text \<open>The callbacks of the three loops over the live cache (lines 219 to 257).\<close>

definition collectModules ::
  "env \<Rightarrow> ('r, 'f) cache_ops \<Rightarrow> path \<times> ref mode_aware_cache \<Rightarrow>
   ('r, 'f) world \<Rightarrow> (failure + unit) \<times> ('r, 'f) world" where
  "collectModules host ops =
     (\<lambda>(filePath, resolutions) w.
        collectResolutionToRefFromCache ops
          (inferredTypesPathOf host (actualProgram w)) ''Modules'' filePath
          (Some resolutions) getResolvedModuleFileName True resolvedModuleNames_update
          (\<lambda>name mode.
             getResolvedModule (actualProgram w)
               (getSourceFileByPath (actualProgram w) filePath) name mode)
          w)"

definition collectTypeReferences ::
  "env \<Rightarrow> ('r, 'f) cache_ops \<Rightarrow> path \<times> ref mode_aware_cache \<Rightarrow>
   ('r, 'f) world \<Rightarrow> (failure + unit) \<times> ('r, 'f) world" where
  "collectTypeReferences host ops =
     (\<lambda>(filePath, resolutions) w.
        collectResolutionToRefFromCache ops
          (inferredTypesPathOf host (actualProgram w)) ''TypeRefs'' filePath
          (Some resolutions) getResolvedTypeRefFileName False
          resolvedTypeReferenceDirectives_update
          (\<lambda>name mode.
             if filePath \<noteq> inferredTypesPathOf host (actualProgram w) then
               getResolvedTypeReferenceDirective (actualProgram w)
                 (getSourceFileByPath (actualProgram w) filePath) name mode
             else
               Inr (map_of (automaticTypeDirectiveResolutions (actualProgram w))
                      (name, mode)))
          w)"

definition collectLibrary ::
  "env \<Rightarrow> ('r, 'f) cache_ops \<Rightarrow> string \<times> ref \<Rightarrow>
   ('r, 'f) world \<Rightarrow> (failure + unit) \<times> ('r, 'f) world" where
  "collectLibrary host ops =
     (\<lambda>(libFileName, resolved) w.
        bindS
          (collectResolution ops ''Libs''
             (toPath host
                (getInferredLibraryNameResolveFrom host
                   (compilerOptions (actualProgram w)) (getCurrentDirectory host)
                   libFileName))
             resolved
             (getResolvedModuleFileName (objects (actual w) resolved))
             (getLibraryNameFromLibFileName host libFileName) None False)
          (\<lambda>expectedResolution w.
             (Inr (),
              w\<lparr>expected := (expected w)\<lparr>resolvedLibraries :=
                  mapSet libFileName expectedResolution
                    (resolvedLibraries (expected w))\<rparr>\<rparr>))
          w)"

definition populateExpected ::
  "env \<Rightarrow> ('r, 'f) cache_ops \<Rightarrow> bool \<Rightarrow> ('r, 'f) world \<Rightarrow> (failure + unit) \<times> ('r, 'f) world" where
  "populateExpected host ops userResolvedModuleNames =
     thenS (onExpected (startCachingPerDirectoryResolution ops))
    (thenS (\<lambda>w. forEachS (resolvedModuleNames (actual w)) (collectModules host ops) w)
    (thenS (\<lambda>w. forEachS (resolvedTypeReferenceDirectives (actual w))
                 (collectTypeReferences host ops) w)
    (thenS (\<lambda>w. forEachS (resolvedLibraries (actual w)) (collectLibrary host ops) w)
    (thenS (check (verifyProgramResolutions host userResolvedModuleNames))
       (\<lambda>w. onExpected
          (finishCachingPerDirectoryResolution ops (Some (actualProgram w)) None) w)))))"

text \<open>Lines 295 to 313: the reference counts of the collected resolutions.\<close>

definition verifyRefCount :: "('r, 'f) world \<Rightarrow> failure + unit" where
  "verifyRefCount w =
     forEach (resolutionToRefs w) (\<lambda>(resolution, info).
       andThen
         (assert (refCount (objects (actual w) resolution) = Some (length info))
            ''Expected Resolution ref count'')
      (andThen
         (assert (\<not> isInvalidated (objects (actual w) resolution))
            ''Resolution should not be invalidated'')
         (case map_of (resolutionToExpected w) resolution of
            None \<Rightarrow> Inl (TypeError ''Cannot read properties of undefined (reading refCount)'')
          | Some expectedResolution \<Rightarrow>
              andThen
                (assert
                   (refCount (objects (expected w) expectedResolution) =
                    refCount (objects (actual w) resolution))
                   ''Expected Resolution ref count'')
                (verifySet
                   (resolution.files (objects (expected w) expectedResolution))
                   (resolution.files (objects (actual w) resolution))
                   ''Resolution files''))))"

text \<open>Lines 314 to 318: the aggregate indices and the watches.\<close>

definition verifyAggregates :: "('r, 'f) world \<Rightarrow> failure + unit" where
  "verifyAggregates w =
     andThen
       (verifyMapOfResolutionSet (expectedToResolution w) (resolutionToExpected w)
          (Some (resolvedFileToResolution (expected w)))
          (Some (resolvedFileToResolution (actual w))) ''resolvedFileToResolution'')
    (andThen
       (verifyResolutionSet (expectedToResolution w) (resolutionToExpected w)
          (Some (resolutionsWithFailedLookups (expected w)))
          (Some (resolutionsWithFailedLookups (actual w))) ''resolutionsWithFailedLookups'')
    (andThen
       (verifyResolutionSet (expectedToResolution w) (resolutionToExpected w)
          (Some (resolutionsWithOnlyAffectingLocations (expected w)))
          (Some (resolutionsWithOnlyAffectingLocations (actual w)))
          ''resolutionsWithOnlyAffectingLocations'')
    (andThen
       (verifyDirectoryWatchesOfFailedLookups
          (directoryWatchesOfFailedLookups (expected w))
          (directoryWatchesOfFailedLookups (actual w)))
       (verifyFileWatchesOfAffectingLocations
          (fileWatchesOfAffectingLocations (expected w))
          (fileWatchesOfAffectingLocations (actual w))))))"

text \<open>
  Lines 320 to 323: every file of the live module and type-reference caches is removed
  from the shadow cache, and the recording session is finished without a new program.
\<close>

definition stopWatching ::
  "('r, 'f) cache_ops \<Rightarrow> ('r, 'f) world \<Rightarrow> (failure + unit) \<times> ('r, 'f) world" where
  "stopWatching ops =
     thenS
       (\<lambda>w. forEachS (resolvedModuleNames (actual w))
          (\<lambda>(filePath, resolutions). onExpected (removeResolutionsOfFile ops filePath)) w)
    (thenS
       (\<lambda>w. forEachS (resolvedTypeReferenceDirectives (actual w))
          (\<lambda>(filePath, resolutions). onExpected (removeResolutionsOfFile ops filePath)) w)
       (\<lambda>w. onExpected
          (finishCachingPerDirectoryResolution ops None (Some (actualProgram w))) w))"

text \<open>
  Lines 325 to 333: everything is released. \<open>!expected.refCount\<close> holds of an absent
  count and of zero; \<open>!expected.files?.size\<close> holds of an absent set and of an empty one.
\<close>

definition verifyReleased :: "('r, 'f) world \<Rightarrow> failure + unit" where
  "verifyReleased w =
     andThen
       (forEach (resolutionToExpected w) (\<lambda>(resolution, expectedResolution).
          andThen
            (assert
               (case refCount (objects (expected w) expectedResolution) of
                  None \<Rightarrow> True
                | Some n \<Rightarrow> n = 0)
               ''All the resolution should be released'')
            (assert
               (case resolution.files (objects (expected w) expectedResolution) of
                  None \<Rightarrow> True
                | Some fs \<Rightarrow> length fs = 0)
               ''Shouldnt ref to any files'')))
    (andThen
       (assert (length (resolvedFileToResolution (expected w)) = 0)
          ''resolvedFileToResolution should be released'')
    (andThen
       (assert (length (resolutionsWithFailedLookups (expected w)) = 0)
          ''resolutionsWithFailedLookups should be released'')
    (andThen
       (assert (length (resolutionsWithOnlyAffectingLocations (expected w)) = 0)
          ''resolutionsWithOnlyAffectingLocations should be released'')
    (andThen
       (assert (length (directoryWatchesOfFailedLookups (expected w)) = 0)
          ''directoryWatchesOfFailedLookups should be released'')
       (assert (length (fileWatchesOfAffectingLocations (expected w)) = 0)
          ''fileWatchesOfAffectingLocations should be released'')))))"

text \<open>
  \<open>verifyResolutionCache\<close>: the state starts with a new shadow cache and empty maps,
  and the five parts run in sequence. The result is the normal return or the exception,
  and the state left behind. The argument \<open>projectName\<close> of the source is part of the
  messages only and is left out.
\<close>

definition initialWorld ::
  "('r, 'f) cache_ops \<Rightarrow> ('r, 'f) resolution_cache \<Rightarrow> program \<Rightarrow> ('r, 'f) world" where
  "initialWorld ops liveCache prog =
     \<lparr>actual = liveCache,
      actualProgram = prog,
      expected = createResolutionCache ops (rootDirForResolution liveCache),
      expectedToResolution = [],
      resolutionToExpected = [],
      resolutionToRefs = [],
      created = 0\<rparr>"

definition verifyResolutionCache ::
  "env \<Rightarrow> ('r, 'f) cache_ops \<Rightarrow> ('r, 'f) resolution_cache \<Rightarrow> program \<Rightarrow> bool \<Rightarrow>
   (failure + unit) \<times> ('r, 'f) world" where
  "verifyResolutionCache host ops liveCache prog userResolvedModuleNames =
     thenS (populateExpected host ops userResolvedModuleNames)
    (thenS (check verifyRefCount)
    (thenS (check verifyAggregates)
    (thenS (stopWatching ops)
       (check verifyReleased))))
     (initialWorld ops liveCache prog)"

section \<open>Notions used to state the properties\<close>

text \<open>The elements of a set that may be \<open>undefined\<close>.\<close>

definition elements :: "'a list option \<Rightarrow> 'a set" where
  "elements s = (case s of None \<Rightarrow> {} | Some xs \<Rightarrow> set xs)"

text \<open>What the verifier does not write: the live cache and the program.\<close>

definition live :: "('r, 'f) world \<Rightarrow> ('r, 'f) resolution_cache \<times> program" where
  "live w = (actual w, actualProgram w)"

text \<open>
  The state of \<open>verifyResolutionCache\<close> when the reference counts and the aggregates
  are compared (after line 293), and when the release is checked (after line 323).
\<close>

definition populated ::
  "env \<Rightarrow> ('r, 'f) cache_ops \<Rightarrow> ('r, 'f) resolution_cache \<Rightarrow> program \<Rightarrow> bool \<Rightarrow> ('r, 'f) world" where
  "populated host ops liveCache prog userResolvedModuleNames =
     snd (populateExpected host ops userResolvedModuleNames (initialWorld ops liveCache prog))"

definition released ::
  "env \<Rightarrow> ('r, 'f) cache_ops \<Rightarrow> ('r, 'f) resolution_cache \<Rightarrow> program \<Rightarrow> bool \<Rightarrow> ('r, 'f) world" where
  "released host ops liveCache prog userResolvedModuleNames =
     snd (stopWatching ops (populated host ops liveCache prog userResolvedModuleNames))"

text \<open>The resolution a per-file mode-aware cache holds at (file, name, mode).\<close>

definition cacheGet ::
  "(path \<times> ref mode_aware_cache) list \<Rightarrow> path \<Rightarrow> string \<Rightarrow> resolution_mode option \<Rightarrow> ref option" where
  "cacheGet perFile filePath name mode =
     (case map_of perFile filePath of None \<Rightarrow> None | Some c \<Rightarrow> map_of c (name, mode))"

text \<open>
  The resolutions the verifier collects from the live cache, one occurrence for each
  (cacheType, file, name, mode) reference, in the order of collection: the entries of
  the module caches, of the type-reference caches, and the libraries.
\<close>

definition collected :: "('r, 'f) resolution_cache \<Rightarrow> ref list" where
  "collected c =
     concat (map (\<lambda>(filePath, resolutions). map snd resolutions) (resolvedModuleNames c)) @
     concat (map (\<lambda>(filePath, resolutions). map snd resolutions)
               (resolvedTypeReferenceDirectives c)) @
     map snd (resolvedLibraries c)"

text \<open>
  The operations of the shadow cache throw nothing but assertion failures, whatever
  their arguments and the state of the cache.
\<close>

definition throwsAssertionsOnly :: "('r, 'f) cache_ops \<Rightarrow> bool" where
  "throwsAssertionsOnly ops \<longleftrightarrow>
     (\<forall>c. assertsOnly (fst (startCachingPerDirectoryResolution ops c))) \<and>
     (\<forall>name r filePath resolvedFileName deferWatching c.
        assertsOnly (fst (watchFailedLookupLocationsOfExternalModuleResolutions ops name r
          filePath resolvedFileName deferWatching c))) \<and>
     (\<forall>newProgram oldProgram c.
        assertsOnly (fst (finishCachingPerDirectoryResolution ops newProgram oldProgram c))) \<and>
     (\<forall>filePath c. assertsOnly (fst (removeResolutionsOfFile ops filePath c)))"

text \<open>
  A resolution whose reference count and set of files are set; and operations of the
  shadow cache that, when they return, have set both for the resolution they were told
  to watch and have unset neither for any resolution.
\<close>

definition tracked :: "('r, 'f) resolution_cache \<Rightarrow> ref \<Rightarrow> bool" where
  "tracked c e \<longleftrightarrow> refCount (objects c e) \<noteq> None \<and> resolution.files (objects c e) \<noteq> None"

definition tracksReferences :: "('r, 'f) cache_ops \<Rightarrow> bool" where
  "tracksReferences ops \<longleftrightarrow>
     (\<forall>name e filePath resolvedFileName deferWatching c.
        fst (watchFailedLookupLocationsOfExternalModuleResolutions ops name e filePath
               resolvedFileName deferWatching c) = Inr () \<longrightarrow>
        tracked (snd (watchFailedLookupLocationsOfExternalModuleResolutions ops name e filePath
               resolvedFileName deferWatching c)) e) \<and>
     (\<forall>name e filePath resolvedFileName deferWatching c e'.
        fst (watchFailedLookupLocationsOfExternalModuleResolutions ops name e filePath
               resolvedFileName deferWatching c) = Inr () \<and> tracked c e' \<longrightarrow>
        tracked (snd (watchFailedLookupLocationsOfExternalModuleResolutions ops name e filePath
               resolvedFileName deferWatching c)) e') \<and>
     (\<forall>c e'. fst (startCachingPerDirectoryResolution ops c) = Inr () \<and> tracked c e' \<longrightarrow>
        tracked (snd (startCachingPerDirectoryResolution ops c)) e') \<and>
     (\<forall>newProgram oldProgram c e'.
        fst (finishCachingPerDirectoryResolution ops newProgram oldProgram c) = Inr () \<and>
        tracked c e' \<longrightarrow>
        tracked (snd (finishCachingPerDirectoryResolution ops newProgram oldProgram c)) e') \<and>
     (\<forall>filePath c e'. fst (removeResolutionsOfFile ops filePath c) = Inr () \<and> tracked c e' \<longrightarrow>
        tracked (snd (removeResolutionsOfFile ops filePath c)) e')"

text \<open>
  Every \<open>ExpectedResolution\<close> the verifier has linked was created by it and is tracked
  by the shadow cache.
\<close>

definition allTracked :: "('r, 'f) world \<Rightarrow> bool" where
  "allTracked w \<longleftrightarrow>
     (\<forall>(r, e) \<in> set (resolutionToExpected w). e < created w \<and> tracked (expected w) e)"

text \<open>The number of references the verifier has recorded for a resolution.\<close>

definition recorded :: "('r, 'f) world \<Rightarrow> ref \<Rightarrow> nat" where
  "recorded w r = (case map_of (resolutionToRefs w) r of None \<Rightarrow> 0 | Some info \<Rightarrow> length info)"

text \<open>Every resolution that has references recorded is linked to an expected resolution.\<close>

definition linked :: "('r, 'f) world \<Rightarrow> bool" where
  "linked w =
     (\<forall>r. map_of (resolutionToRefs w) r \<noteq> None \<longrightarrow> map_of (resolutionToExpected w) r \<noteq> None)"

section \<open>A shadow cache to run the verifier\<close>

text \<open>
  Modelled from the spec: the operations of the resolution cache, which are not part of
  the sources at hand. The spec says that a resolution's reference count is incremented
  for each referencing file, and decremented and pruned when a referencing file is
  removed; that the cache keeps a reverse index from a resolved file to the resolutions
  pointing at it, the set of the resolutions with failed lookups and the set of those
  with affecting locations only; and that a directory or file watch exists exactly when
  at least one live resolution depends on its path, with a count of its dependents.
  This cache does that. The directory watched for a failed lookup location is the
  directory that contains it, and an affecting location is watched as a file. It is
  used to run the verifier on example inputs only.
\<close>

definition setAdd :: "'a \<Rightarrow> 'a list \<Rightarrow> 'a list" where
  "setAdd x xs = (if x \<in> set xs then xs else xs @ [x])"

definition addResolvedFile :: "path \<Rightarrow> ref \<Rightarrow> (path \<times> ref list) list \<Rightarrow> (path \<times> ref list) list" where
  "addResolvedFile key r m =
     mapSet key (setAdd r (case map_of m key of None \<Rightarrow> [] | Some rs \<Rightarrow> rs)) m"

definition dropResolution :: "ref \<Rightarrow> (path \<times> ref list) list \<Rightarrow> (path \<times> ref list) list" where
  "dropResolution r m =
     filter (\<lambda>(key, rs). rs \<noteq> []) (map (\<lambda>(key, rs). (key, removeAll r rs)) m)"

definition directoryOf :: "string \<Rightarrow> string" where
  "directoryOf location = rev (tl (dropWhile (\<lambda>c. c \<noteq> CHR ''/'') (rev location)))"

definition watchedDirectories :: "resolution \<Rightarrow> string list" where
  "watchedDirectories obj =
     remdups (map directoryOf
       (case failedLookupLocations obj of None \<Rightarrow> [] | Some locations \<Rightarrow> locations))"

definition watchedFiles :: "resolution \<Rightarrow> string list" where
  "watchedFiles obj =
     remdups (case affectingLocations obj of None \<Rightarrow> [] | Some locations \<Rightarrow> locations)"

definition watchDirectory ::
  "string \<Rightarrow> (string \<times> directory_watch) list \<Rightarrow> (string \<times> directory_watch) list" where
  "watchDirectory dir watches =
     mapSet dir
       (case map_of watches dir of
          None \<Rightarrow> \<lparr>directory_watch.refCount = 1, nonRecursive = None\<rparr>
        | Some w \<Rightarrow> w\<lparr>directory_watch.refCount := directory_watch.refCount w + 1\<rparr>)
       watches"

definition unwatchDirectory ::
  "string \<Rightarrow> (string \<times> directory_watch) list \<Rightarrow> (string \<times> directory_watch) list" where
  "unwatchDirectory dir watches =
     (case map_of watches dir of
        None \<Rightarrow> watches
      | Some w \<Rightarrow>
          if directory_watch.refCount w \<le> 1 then filter (\<lambda>(d, w). d \<noteq> dir) watches
          else mapSet dir (w\<lparr>directory_watch.refCount := directory_watch.refCount w - 1\<rparr>)
                 watches)"

definition watchFile ::
  "string \<Rightarrow> (string \<times> (nat, nat) file_watcher) list \<Rightarrow> (string \<times> (nat, nat) file_watcher) list" where
  "watchFile location watches =
     mapSet location
       (case map_of watches location of
          None \<Rightarrow> \<lparr>resolutions = 1, file_watcher.files = 0, symlinks = None\<rparr>
        | Some w \<Rightarrow> w\<lparr>resolutions := resolutions w + 1\<rparr>)
       watches"

definition unwatchFile ::
  "string \<Rightarrow> (string \<times> (nat, nat) file_watcher) list \<Rightarrow> (string \<times> (nat, nat) file_watcher) list" where
  "unwatchFile location watches =
     (case map_of watches location of
        None \<Rightarrow> watches
      | Some w \<Rightarrow>
          if resolutions w \<le> 1 \<and> file_watcher.files w = 0
          then filter (\<lambda>(l, w). l \<noteq> location) watches
          else mapSet location (w\<lparr>resolutions := resolutions w - 1\<rparr>) watches)"

text \<open>
  The first referencing file of a resolution makes the cache index and watch it; the
  last one removed makes the cache drop it from every index and watch.
\<close>

definition specStartWatching ::
  "env \<Rightarrow> ref \<Rightarrow> string option \<Rightarrow> (nat, nat) resolution_cache \<Rightarrow> (nat, nat) resolution_cache" where
  "specStartWatching host r resolvedFileName c =
     (let obj = objects c r in
      c\<lparr>resolvedFileToResolution :=
          (case resolvedFileName of
             None \<Rightarrow> resolvedFileToResolution c
           | Some f \<Rightarrow> addResolvedFile (toPath host f) r (resolvedFileToResolution c)),
        resolutionsWithFailedLookups :=
          (if watchedDirectories obj \<noteq> [] then setAdd r (resolutionsWithFailedLookups c)
           else resolutionsWithFailedLookups c),
        resolutionsWithOnlyAffectingLocations :=
          (if watchedDirectories obj = [] \<and> watchedFiles obj \<noteq> []
           then setAdd r (resolutionsWithOnlyAffectingLocations c)
           else resolutionsWithOnlyAffectingLocations c),
        directoryWatchesOfFailedLookups :=
          fold watchDirectory (watchedDirectories obj) (directoryWatchesOfFailedLookups c),
        fileWatchesOfAffectingLocations :=
          fold watchFile (watchedFiles obj) (fileWatchesOfAffectingLocations c)\<rparr>)"

definition specEndWatching ::
  "ref \<Rightarrow> (nat, nat) resolution_cache \<Rightarrow> (nat, nat) resolution_cache" where
  "specEndWatching r c =
     (let obj = objects c r in
      c\<lparr>resolvedFileToResolution := dropResolution r (resolvedFileToResolution c),
        resolutionsWithFailedLookups := removeAll r (resolutionsWithFailedLookups c),
        resolutionsWithOnlyAffectingLocations :=
          removeAll r (resolutionsWithOnlyAffectingLocations c),
        directoryWatchesOfFailedLookups :=
          fold unwatchDirectory (watchedDirectories obj) (directoryWatchesOfFailedLookups c),
        fileWatchesOfAffectingLocations :=
          fold unwatchFile (watchedFiles obj) (fileWatchesOfAffectingLocations c)\<rparr>)"

definition specWatch ::
  "env \<Rightarrow> string \<Rightarrow> ref \<Rightarrow> path \<Rightarrow> string option \<Rightarrow> bool \<Rightarrow> (nat, nat) cache_op" where
  "specWatch host name r filePath resolvedFileName deferWatching c =
     (let obj = objects c r;
          c1 = c\<lparr>objects := (objects c)
                 (r := obj\<lparr>refCount := Some (case refCount obj of None \<Rightarrow> 1 | Some n \<Rightarrow> n + 1),
                          resolution.files := Some (setAdd filePath
                            (case resolution.files obj of None \<Rightarrow> [] | Some fs \<Rightarrow> fs))\<rparr>)\<rparr>
      in (Inr (),
          if refCount obj = None \<or> refCount obj = Some 0
          then specStartWatching host r resolvedFileName c1
          else c1))"

definition specStopWatch ::
  "path \<Rightarrow> ref \<Rightarrow> (nat, nat) resolution_cache \<Rightarrow> (nat, nat) resolution_cache" where
  "specStopWatch filePath r c =
     (let obj = objects c r;
          n = (case refCount obj of None \<Rightarrow> 0 | Some n \<Rightarrow> n - 1);
          c1 = c\<lparr>objects := (objects c)
                 (r := obj\<lparr>refCount := Some n,
                          resolution.files := Some (removeAll filePath
                            (case resolution.files obj of None \<Rightarrow> [] | Some fs \<Rightarrow> fs))\<rparr>)\<rparr>
      in if refCount obj = Some 1 then specEndWatching r c1 else c1)"

definition specRemoveResolutionsOfFile :: "path \<Rightarrow> (nat, nat) cache_op" where
  "specRemoveResolutionsOfFile filePath c =
     (let watched =
            map snd (case map_of (resolvedModuleNames c) filePath of None \<Rightarrow> [] | Some m \<Rightarrow> m) @
            map snd (case map_of (resolvedTypeReferenceDirectives c) filePath of
                       None \<Rightarrow> [] | Some m \<Rightarrow> m);
          c1 = fold (specStopWatch filePath) watched c
      in (Inr (),
          c1\<lparr>resolvedModuleNames := filter (\<lambda>(p, m). p \<noteq> filePath) (resolvedModuleNames c1),
             resolvedTypeReferenceDirectives :=
               filter (\<lambda>(p, m). p \<noteq> filePath) (resolvedTypeReferenceDirectives c1)\<rparr>))"

definition specFinish :: "env \<Rightarrow> program option \<Rightarrow> program option \<Rightarrow> (nat, nat) cache_op" where
  "specFinish host newProgram oldProgram c =
     (case newProgram of
        Some p \<Rightarrow> (Inr (), c)
      | None \<Rightarrow>
          (Inr (),
           (fold (\<lambda>(libFileName, r).
              specStopWatch
                (toPath host (getInferredLibraryNameResolveFrom host
                   (case oldProgram of None \<Rightarrow> [] | Some p \<Rightarrow> compilerOptions p)
                   (getCurrentDirectory host) libFileName)) r)
              (resolvedLibraries c) c)\<lparr>resolvedLibraries := []\<rparr>))"

definition emptyObject :: resolution where
  "emptyObject =
     \<lparr>resolvedModule = None, resolvedTypeReferenceDirective = None,
      failedLookupLocations = None, affectingLocations = None, node10Result = None,
      isInvalidated = False, refCount = None, resolution.files = None\<rparr>"

definition emptyCache :: "string \<Rightarrow> (nat, nat) resolution_cache" where
  "emptyCache rootDir =
     \<lparr>objects = (\<lambda>r. emptyObject), resolvedModuleNames = [],
      resolvedTypeReferenceDirectives = [], resolvedLibraries = [],
      resolvedFileToResolution = [], resolutionsWithFailedLookups = [],
      resolutionsWithOnlyAffectingLocations = [], directoryWatchesOfFailedLookups = [],
      fileWatchesOfAffectingLocations = [], rootDirForResolution = rootDir\<rparr>"

definition specCacheOps :: "env \<Rightarrow> (nat, nat) cache_ops" where
  "specCacheOps host =
     \<lparr>createResolutionCache = emptyCache,
      startCachingPerDirectoryResolution = (\<lambda>c. (Inr (), c)),
      watchFailedLookupLocationsOfExternalModuleResolutions = specWatch host,
      finishCachingPerDirectoryResolution = specFinish host,
      removeResolutionsOfFile = specRemoveResolutionsOfFile\<rparr>"

section \<open>Example inputs\<close>

definition exampleRegistry :: document_registry where
  "exampleRegistry =
     [(''key1'',
       [(''/a.ts'', SingleEntry \<lparr>scriptKind = TS, languageServiceRefCount = 2\<rparr>),
        (''/b.js'', EntryByKind [(JS, \<lparr>scriptKind = JS, languageServiceRefCount = 1\<rparr>)])])]"

definition exampleStats :: document_registry_expected_stats where
  "exampleStats = [(''key1'', [(''/a.ts'', [(TS, 2)]), (''/b.js'', [(JS, 1)])])]"

text \<open>
  A host, and the second scenario of the spec: two files that both require \<open>bar\<close>,
  resolved to the same target by one resolution with reference count 2.
\<close>

definition exHost :: env where
  "exHost =
     \<lparr>getCurrentDirectory = ''/'',
      toPath = (\<lambda>f. f),
      getAutomaticTypeDirectiveContainingFile = (\<lambda>opts dir. dir @ ''__inferred type names__.ts''),
      getInferredLibraryNameResolveFrom =
        (\<lambda>opts dir lib. dir @ ''__lib_node_modules_lookup_'' @ lib @ ''__.ts''),
      getLibraryNameFromLibFileName = (\<lambda>lib. ''@typescript/'' @ lib),
      emptyResolution = 0\<rparr>"

definition exBar :: resolution where
  "exBar =
     \<lparr>resolvedModule = Some (Resolved (Some ''/node_modules/bar/index.d.ts'')),
      resolvedTypeReferenceDirective = None,
      failedLookupLocations = None, affectingLocations = None, node10Result = None,
      isInvalidated = False, refCount = Some 2,
      resolution.files = Some [''/a.ts'', ''/b.ts'']\<rparr>"

definition exCache :: "(nat, nat) resolution_cache" where
  "exCache =
     (emptyCache ''/'')
       \<lparr>objects := (\<lambda>r. emptyObject)(1 := exBar),
        resolvedModuleNames :=
          [(''/a.ts'', [((''bar'', None), 1)]), (''/b.ts'', [((''bar'', None), 1)])],
        resolvedFileToResolution := [(''/node_modules/bar/index.d.ts'', [1])]\<rparr>"

definition exFile :: "string \<Rightarrow> string \<Rightarrow> source_file" where
  "exFile p t =
     \<lparr>sourceFileName = p, sourcePath = p, resolvedPath = p, impliedNodeFormat = None,
      sourceText = t\<rparr>"

definition exProgram :: program where
  "exProgram =
     \<lparr>sourceFiles = [exFile ''/a.ts'' [], exFile ''/b.ts'' []],
      resolvedModules =
        [(''/a.ts'', [((''bar'', None), 1)]), (''/b.ts'', [((''bar'', None), 1)])],
      resolvedTypeReferenceDirectiveNames = [],
      automaticTypeDirectiveResolutions = [],
      resolvedLibReferences = None,
      compilerOptions = []\<rparr>"

text \<open>
  The third scenario of the spec: an ambient module, which the program resolves to the
  \<open>emptyResolution\<close> sentinel (the object at reference 0 of \<open>exHost\<close>). In
  \<open>exAmbientCache\<close> the live cache holds the sentinel under the name, counted once.
\<close>

definition exAmbientProgram :: program where
  "exAmbientProgram =
     \<lparr>sourceFiles = [exFile ''/a.ts'' []],
      resolvedModules = [(''/a.ts'', [((''ambient'', None), 0)])],
      resolvedTypeReferenceDirectiveNames = [],
      automaticTypeDirectiveResolutions = [],
      resolvedLibReferences = None,
      compilerOptions = []\<rparr>"

definition exAmbientCache :: "(nat, nat) resolution_cache" where
  "exAmbientCache =
     (emptyCache ''/'')
       \<lparr>objects := (\<lambda>r. emptyObject)
          (0 := emptyObject\<lparr>refCount := Some 1, resolution.files := Some [''/a.ts'']\<rparr>),
        resolvedModuleNames := [(''/a.ts'', [((''ambient'', None), 0)])]\<rparr>"






definition exInferredCache :: "(nat, nat) resolution_cache" where
  "exInferredCache =
     (emptyCache ''/'')
       \<lparr>objects := (\<lambda>r. emptyObject)(1 := exBar),
        resolvedModuleNames := [(''/__inferred type names__.ts'', [((''bar'', None), 1)])]\<rparr>"

text \<open>Directory watches and file watches, the same in the live and the shadow cache.\<close>

definition exDirectoryWatches :: "(string \<times> directory_watch) list" where
  "exDirectoryWatches =
     [(''/node_modules'', \<lparr>directory_watch.refCount = 2, nonRecursive = None\<rparr>),
      (''/src'', \<lparr>directory_watch.refCount = 1, nonRecursive = Some True\<rparr>)]"

definition exFileWatches :: "(string \<times> (nat, nat) file_watcher) list" where
  "exFileWatches =
     [(''/package.json'',
       \<lparr>resolutions = 1, file_watcher.files = 2, symlinks = Some [''/link/package.json'']\<rparr>)]"






section \<open>Properties of assertions and iteration\<close>

lemma assert_ok [simp]: "assert c m = Inr () \<longleftrightarrow> c"
  by (simp add: assert_def)

lemma andThen_ok [simp]: "andThen a b = Inr () \<longleftrightarrow> a = Inr () \<and> b = Inr ()"
  by (cases a) (simp_all add: andThen_def)

lemma forEach_ok: "forEach xs f = Inr () \<longleftrightarrow> (\<forall>x\<in>set xs. f x = Inr ())"
  by (induction xs) (auto split: sum.splits)

lemma forEachOpt_ok:
  "forEachOpt c f = Inr () \<longleftrightarrow> (\<forall>xs. c = Some xs \<longrightarrow> (\<forall>x\<in>set xs. f x = Inr ()))"
  by (cases c) (simp_all add: forEachOpt_def forEach_ok)

lemma assertsOnly_assert [intro!, simp]: "assertsOnly (assert c m)"
  by (simp add: assert_def assertsOnly_def)

lemma assertsOnly_Inr [intro!, simp]: "assertsOnly (Inr u)"
  by (simp add: assertsOnly_def)

lemma assertsOnly_andThen [intro!]:
  "assertsOnly a \<Longrightarrow> assertsOnly b \<Longrightarrow> assertsOnly (andThen a b)"
  by (cases a) (simp_all add: andThen_def)

lemma assertsOnly_forEach [intro!]:
  "(\<And>x. x \<in> set xs \<Longrightarrow> assertsOnly (f x)) \<Longrightarrow> assertsOnly (forEach xs f)"
proof (induction xs)
  case Nil
  show ?case by simp
next
  case (Cons a xs)
  have "assertsOnly (f a)" using Cons.prems by simp
  moreover have "assertsOnly (forEach xs f)" using Cons by simp
  ultimately show ?case by (cases "f a") simp_all
qed

lemma assertsOnly_forEachOpt [intro!]:
  "(\<And>xs x. c = Some xs \<Longrightarrow> x \<in> set xs \<Longrightarrow> assertsOnly (f x)) \<Longrightarrow>
   assertsOnly (forEachOpt c f)"
  by (cases c) (auto simp: forEachOpt_def)

section \<open>The document registry verifier\<close>

lemma single_tally:
  "(length ex = Suc 0 \<and> has ex k \<and> map_of ex k = Some c) \<longleftrightarrow> ex = [(k, c)]"
  by (cases ex) (auto simp: has_def split: if_splits)

lemma entry_ok:
  "((case entry of
       SingleEntry e \<Rightarrow>
         assert
           (case tally of
              None \<Rightarrow> False
            | Some ex \<Rightarrow>
                length ex = 1 \<and> has ex (scriptKind e) \<and>
                map_of ex (scriptKind e) = Some (languageServiceRefCount e))
           m1
     | EntryByKind byKind \<Rightarrow>
         andThen
           (forEach byKind (\<lambda>(kind, real).
              assert
                (Some (languageServiceRefCount real) =
                   (case tally of None \<Rightarrow> None | Some ex \<Rightarrow> map_of ex kind))
                m2))
           (forEachOpt tally (\<lambda>(kind, value). assert (has byKind kind) m3))) = Inr ()) =
   (case entry of
      SingleEntry e \<Rightarrow> tally = Some [(scriptKind e, languageServiceRefCount e)]
    | EntryByKind byKind \<Rightarrow>
        (\<forall>(kind, real) \<in> set byKind.
           (case tally of None \<Rightarrow> None | Some ex \<Rightarrow> map_of ex kind) =
             Some (languageServiceRefCount real)) \<and>
        (\<forall>ex. tally = Some ex \<longrightarrow> (\<forall>(kind, count) \<in> set ex. has byKind kind)))"
proof (cases entry)
  case (SingleEntry e)
  then show ?thesis by (cases tally) (simp_all add: single_tally)
next
  case (EntryByKind byKind)
  then show ?thesis
    by (simp add: forEach_ok forEachOpt_ok split_beta) (metis (no_types, lifting))
qed

text \<open>
  Claim C7. \<open>verifyDocumentRegistryStats\<close> returns exactly when, for every bucket key
  and path of the registry, a single entry has a tally of exactly one script kind, the
  entry's own, with the entry's reference count, and a map by script kind has for each
  of its kinds the tally's count as reference count and holds every kind of the tally;
  and every tallied path is in the registry bucket of its key, and every tallied key is
  in the registry. Otherwise it throws, and what it throws is an assertion failure.
\<close>

theorem verifyDocumentRegistryStats_checks:
  "(verifyDocumentRegistryStats documentRegistry stats = Inr () \<longleftrightarrow>
     (\<forall>(key, bucketEntries) \<in> set documentRegistry.
        (\<forall>(filePath, entry) \<in> set bucketEntries.
           case entry of
             SingleEntry e \<Rightarrow>
               tallyOf stats key filePath = Some [(scriptKind e, languageServiceRefCount e)]
           | EntryByKind byKind \<Rightarrow>
               (\<forall>(kind, real) \<in> set byKind.
                  tallyCount stats key filePath kind = Some (languageServiceRefCount real)) \<and>
               (\<forall>ex. tallyOf stats key filePath = Some ex \<longrightarrow>
                  (\<forall>(kind, count) \<in> set ex. has byKind kind))) \<and>
        (\<forall>byPath. map_of stats key = Some byPath \<longrightarrow>
           (\<forall>(filePath, tally) \<in> set byPath. has bucketEntries filePath))) \<and>
     (\<forall>(key, byPath) \<in> set stats. has documentRegistry key)) \<and>
   assertsOnly (verifyDocumentRegistryStats documentRegistry stats)"
proof
  show "verifyDocumentRegistryStats documentRegistry stats = Inr () \<longleftrightarrow>
     (\<forall>(key, bucketEntries) \<in> set documentRegistry.
        (\<forall>(filePath, entry) \<in> set bucketEntries.
           case entry of
             SingleEntry e \<Rightarrow>
               tallyOf stats key filePath = Some [(scriptKind e, languageServiceRefCount e)]
           | EntryByKind byKind \<Rightarrow>
               (\<forall>(kind, real) \<in> set byKind.
                  tallyCount stats key filePath kind = Some (languageServiceRefCount real)) \<and>
               (\<forall>ex. tallyOf stats key filePath = Some ex \<longrightarrow>
                  (\<forall>(kind, count) \<in> set ex. has byKind kind))) \<and>
        (\<forall>byPath. map_of stats key = Some byPath \<longrightarrow>
           (\<forall>(filePath, tally) \<in> set byPath. has bucketEntries filePath))) \<and>
     (\<forall>(key, byPath) \<in> set stats. has documentRegistry key)"
    unfolding verifyDocumentRegistryStats_def tallyOf_def tallyCount_def
    by (simp add: forEach_ok forEachOpt_ok Let_def split_beta entry_ok
          cong: bucket_entry.case_cong)
  show "assertsOnly (verifyDocumentRegistryStats documentRegistry stats)"
    unfolding verifyDocumentRegistryStats_def
    by (auto simp: Let_def split: bucket_entry.splits)
qed

theorem verifyDocumentRegistryStats_checks_witness:
  "verifyDocumentRegistryStats exampleRegistry exampleStats = Inr () \<and>
   (''/a.ts'', SingleEntry \<lparr>scriptKind = TS, languageServiceRefCount = 2\<rparr>)
     \<in> set (the (map_of exampleRegistry ''key1'')) \<and>
   tallyOf exampleStats ''key1'' ''/a.ts'' = Some [(TS, 2)] \<and>
   tallyCount exampleStats ''key1'' ''/b.js'' JS = Some 1"
proof -
  have "(\<forall>(key, bucketEntries) \<in> set exampleRegistry.
        (\<forall>(filePath, entry) \<in> set bucketEntries.
           case entry of
             SingleEntry e \<Rightarrow>
               tallyOf exampleStats key filePath = Some [(scriptKind e, languageServiceRefCount e)]
           | EntryByKind byKind \<Rightarrow>
               (\<forall>(kind, real) \<in> set byKind.
                  tallyCount exampleStats key filePath kind = Some (languageServiceRefCount real)) \<and>
               (\<forall>ex. tallyOf exampleStats key filePath = Some ex \<longrightarrow>
                  (\<forall>(kind, count) \<in> set ex. has byKind kind))) \<and>
        (\<forall>byPath. map_of exampleStats key = Some byPath \<longrightarrow>
           (\<forall>(filePath, tally) \<in> set byPath. has bucketEntries filePath))) \<and>
     (\<forall>(key, byPath) \<in> set exampleStats. has exampleRegistry key)"
    by (simp add: exampleRegistry_def exampleStats_def tallyOf_def tallyCount_def has_def)
  then have "verifyDocumentRegistryStats exampleRegistry exampleStats = Inr ()"
    using verifyDocumentRegistryStats_checks [of exampleRegistry exampleStats] by blast
  then show ?thesis
    by (simp add: exampleRegistry_def exampleStats_def tallyOf_def tallyCount_def)
qed

section \<open>Properties of stateful code\<close>

lemma fst_check [simp]: "fst (check c s) = c s"
  by (simp add: check_def)

lemma snd_check [simp]: "snd (check c s) = s"
  by (simp add: check_def)

lemma fst_returnS [simp]: "fst (returnS x s) = Inr x"
  by (simp add: returnS_def)

lemma snd_returnS [simp]: "snd (returnS x s) = s"
  by (simp add: returnS_def)

lemma bindS_ok:
  "fst (bindS m k s) = Inr y \<longleftrightarrow> (\<exists>x. fst (m s) = Inr x \<and> fst (k x (snd (m s))) = Inr y)"
  by (cases "m s") (auto simp: bindS_def split: sum.splits)

lemma thenS_ok:
  "fst (thenS m k s) = Inr y \<longleftrightarrow> fst (m s) = Inr () \<and> fst (k (snd (m s))) = Inr y"
  by (simp add: thenS_def bindS_ok)

lemma snd_bindS_ok: "fst (m s) = Inr x \<Longrightarrow> snd (bindS m k s) = snd (k x (snd (m s)))"
  by (cases "m s") (auto simp: bindS_def)

lemma snd_thenS_ok: "fst (m s) = Inr () \<Longrightarrow> snd (thenS m k s) = snd (k (snd (m s)))"
  by (simp add: thenS_def snd_bindS_ok)

text \<open>A projection of the state that every step keeps is kept by the whole.\<close>

lemma keeps_bindS:
  assumes m: "\<And>s. g (snd (m s)) = g s" and k: "\<And>x s. g (snd (k x s)) = g s"
  shows "g (snd (bindS m k s)) = g s"
proof (cases "m s")
  case (Pair r s')
  have s': "g s' = g s" using m [of s] Pair by simp
  show ?thesis
  proof (cases r)
    case (Inl e)
    with Pair s' show ?thesis by (simp add: bindS_def)
  next
    case (Inr x)
    with Pair s' k [of x s'] show ?thesis by (simp add: bindS_def)
  qed
qed

lemma keeps_thenS:
  assumes "\<And>s. g (snd (m s)) = g s" and "\<And>s. g (snd (k s)) = g s"
  shows "g (snd (thenS m k s)) = g s"
  unfolding thenS_def using assms by (rule keeps_bindS)

lemma keeps_forEachS:
  assumes "\<And>x s. x \<in> set xs \<Longrightarrow> g (snd (f x s)) = g s"
  shows "g (snd (forEachS xs f s)) = g s"
  using assms
proof (induction xs arbitrary: s)
  case Nil
  show ?case by simp
next
  case (Cons x xs)
  obtain r s' where fx: "f x s = (r, s')" by (cases "f x s")
  have s': "g s' = g s" using Cons.prems [of x s] fx by simp
  show ?case
  proof (cases r)
    case (Inl e)
    with fx s' show ?thesis by simp
  next
    case (Inr u)
    have "g (snd (forEachS xs f s')) = g s'" using Cons by simp
    with fx s' Inr show ?thesis by simp
  qed
qed

text \<open>When a loop returns, every callback returned, in a state with the same projection.\<close>

lemma forEachS_ok_all:
  assumes ok: "fst (forEachS xs f s) = Inr ()"
    and keeps: "\<And>x s. g (snd (f x s)) = g s"
  shows "\<forall>x\<in>set xs. \<exists>s'. g s' = g s \<and> fst (f x s') = Inr ()"
  using ok
proof (induction xs arbitrary: s)
  case Nil
  show ?case by simp
next
  case (Cons x xs)
  obtain r s' where fx: "f x s = (r, s')" by (cases "f x s")
  have s': "g s' = g s" using keeps [of x s] fx by simp
  from Cons.prems fx have r: "r = Inr ()" and rest: "fst (forEachS xs f s') = Inr ()"
    by (cases r; simp)+
  have "\<forall>y\<in>set xs. \<exists>t. g t = g s' \<and> fst (f y t) = Inr ()" using Cons.IH [OF rest] .
  with s' have "\<forall>y\<in>set xs. \<exists>t. g t = g s \<and> fst (f y t) = Inr ()" by simp
  moreover have "\<exists>t. g t = g s \<and> fst (f x t) = Inr ()" using fx r by (intro exI [of _ s]) simp
  ultimately show ?case by simp
qed

text \<open>When a loop returns, what each callback adds to a counter adds up.\<close>

lemma forEachS_sum:
  fixes c :: "'s \<Rightarrow> nat"
  assumes ok: "fst (forEachS xs f s) = Inr ()"
    and step: "\<And>x s. c (snd (f x s)) = c s + d x"
  shows "c (snd (forEachS xs f s)) = c s + sum_list (map d xs)"
  using ok
proof (induction xs arbitrary: s)
  case Nil
  show ?case by simp
next
  case (Cons x xs)
  obtain r s' where fx: "f x s = (r, s')" by (cases "f x s")
  have s': "c s' = c s + d x" using step [of x s] fx by simp
  from Cons.prems fx have r: "r = Inr ()" and rest: "fst (forEachS xs f s') = Inr ()"
    by (cases r; simp)+
  have "c (snd (forEachS xs f s')) = c s' + sum_list (map d xs)" using Cons.IH [OF rest] .
  with fx r s' show ?case by simp
qed

section \<open>The verifier does not write the live cache or the program\<close>

lemma live_onExpected [simp]: "live (snd (onExpected operation w)) = live w"
  by (cases "operation (expected w)") (simp add: onExpected_def live_def)

lemma live_expected_update [simp]: "live (w\<lparr>expected := c\<rparr>) = live w"
  by (simp add: live_def)

lemma live_collectResolution [simp]:
  "live (snd (collectResolution ops cacheType fileName resolved resolvedFileName name mode d w)) = live w"
  unfolding collectResolution_def
  apply (rule keeps_bindS)
   apply (simp add: live_def Let_def split: option.splits)
  apply (rule keeps_thenS)
   apply simp_all
  done

lemma live_inner_loop:
  fixes f :: "'x \<Rightarrow> 'c option \<times> ('a, 'b) world \<Rightarrow> (failure + unit) \<times> 'c option \<times> ('a, 'b) world"
  assumes "\<And>x s. live (snd (snd (f x s))) = live (snd s)"
  shows "live (snd (case forEachS xs f (None, s) of (r, (c, w')) \<Rightarrow> (r, w'))) = live s"
proof -
  have "live (snd (snd (forEachS xs f (None, s)))) = live (snd (None :: 'c option, s))"
    using keeps_forEachS [where g = "\<lambda>s. live (snd s)" and f = f and xs = xs and s = "(None, s)"]
      assms by simp
  then show ?thesis
    by (cases "forEachS xs f (None, s)") auto
qed

lemma live_collectResolutionToRefFromCache [simp]:
  "live (snd (collectResolutionToRefFromCache ops inferredTypesPath cacheType fileName cache
       getName d store getProgramResolutions w)) = live w"
  unfolding collectResolutionToRefFromCache_def
  apply (rule keeps_thenS)
   apply simp
  apply (rule live_inner_loop)
  subgoal for w x s
  proof -
    obtain name mode resolved where x: "x = ((name, mode), resolved)" by (cases x) auto
    obtain c w0 where s: "s = (c, w0)" by (cases s)
    obtain r w1 where cr: "collectResolution ops cacheType fileName resolved
        (getName (objects (actual w0) resolved)) name mode d w0 = (r, w1)"
      by (cases "collectResolution ops cacheType fileName resolved
        (getName (objects (actual w0) resolved)) name mode d w0")
    have "live w1 = live w0"
      using live_collectResolution [of ops cacheType fileName resolved
        "getName (objects (actual w0) resolved)" name mode d w0] cr by simp
    then show ?thesis
      by (cases r) (simp_all add: x s cr Let_def)
  qed
  done

lemma live_collectModules [simp]: "live (snd (collectModules host ops x w)) = live w"
  by (simp add: collectModules_def split_beta)

lemma live_collectTypeReferences [simp]:
  "live (snd (collectTypeReferences host ops x w)) = live w"
  by (simp add: collectTypeReferences_def split_beta)

lemma live_collectLibrary [simp]: "live (snd (collectLibrary host ops x w)) = live w"
  unfolding collectLibrary_def
  apply (simp add: split_beta)
  apply (rule keeps_bindS)
   apply simp_all
  done

lemma live_populateExpected [simp]:
  "live (snd (populateExpected host ops u w)) = live w"
  unfolding populateExpected_def
  by (intro keeps_thenS keeps_forEachS) simp_all

lemma live_stopWatching [simp]: "live (snd (stopWatching ops w)) = live w"
  unfolding stopWatching_def
  by (intro keeps_thenS keeps_forEachS) (simp_all add: split_beta)

lemma initialWorld_live [simp]:
  "actual (initialWorld ops a p) = a" "actualProgram (initialWorld ops a p) = p"
  by (simp_all add: initialWorld_def)

lemma live_verifyResolutionCache:
  "live (snd (verifyResolutionCache host ops a p u)) = (a, p)"
proof -
  have "live (snd (verifyResolutionCache host ops a p u)) = live (initialWorld ops a p)"
    unfolding verifyResolutionCache_def
    by (intro keeps_thenS) simp_all
  then show ?thesis by (simp add: live_def)
qed

section \<open>What a successful run has checked and recorded\<close>

lemma forEachS_sum_ok:
  fixes c :: "'s \<Rightarrow> nat"
  assumes ok: "fst (forEachS xs f s) = Inr ()"
    and step: "\<And>x s. x \<in> set xs \<Longrightarrow> fst (f x s) = Inr () \<Longrightarrow> c (snd (f x s)) = c s + d x"
  shows "c (snd (forEachS xs f s)) = c s + sum_list (map d xs)"
  using ok step
proof (induction xs arbitrary: s)
  case Nil
  show ?case by simp
next
  case (Cons x xs)
  obtain r s' where fx: "f x s = (r, s')" by (cases "f x s")
  from Cons.prems(1) fx have r: "r = Inr ()" and rest: "fst (forEachS xs f s') = Inr ()"
    by (cases r; simp)+
  have s': "c s' = c s + d x" using Cons.prems(2) [of x s] fx r by simp
  have "c (snd (forEachS xs f s')) = c s' + sum_list (map d xs)"
    using Cons.IH [OF rest] Cons.prems(2) by simp
  with fx r s' show ?case by simp
qed

lemma sum_list_indicator:
  "sum_list (map (\<lambda>x. if r = f x then 1 else 0) xs) = count_list (map f xs) r"
  by (induction xs) auto

lemma map_of_mapSet: "map_of (mapSet k v m) k' = (if k' = k then Some v else map_of m k')"
  by (induction m) auto

lemma recorded_onExpected [simp]: "recorded (snd (onExpected operation w)) r = recorded w r"
  by (cases "operation (expected w)") (simp add: onExpected_def recorded_def)

lemma recorded_expected_update [simp]: "recorded (w\<lparr>expected := c\<rparr>) r = recorded w r"
  by (simp add: recorded_def)

lemma adds_bindS:
  fixes c :: "'s \<Rightarrow> nat"
  assumes m: "c (snd (m s)) = c s + n" and k: "\<And>x s'. c (snd (k x s')) = c s'"
  shows "c (snd (bindS m k s)) = c s + n"
proof (cases "m s")
  case (Pair r s')
  have s': "c s' = c s + n" using m Pair by simp
  show ?thesis
  proof (cases r)
    case (Inl e)
    with Pair s' show ?thesis by (simp add: bindS_def)
  next
    case (Inr x)
    with Pair s' k [of x s'] show ?thesis by (simp add: bindS_def)
  qed
qed

lemma recorded_collectResolution:
  "recorded (snd (collectResolution ops cacheType fileName resolved resolvedFileName name mode d w)) r =
   recorded w r + (if r = resolved then 1 else 0)"
  unfolding collectResolution_def
  apply (rule adds_bindS)
   apply (simp add: recorded_def map_of_mapSet Let_def split: option.splits)
  apply (rule keeps_thenS)
   apply simp_all
  done


lemma collectResolutionToRefFromCache_ok:
  assumes "fst (collectResolutionToRefFromCache ops inferredTypesPath cacheType fileName cache
       getName d store getProgramResolutions w) = Inr ()"
  shows "(getSourceFileByPath (actualProgram w) fileName \<noteq> None \<or> inferredTypesPath = fileName) \<and>
    (\<forall>rs. cache = Some rs \<longrightarrow>
       (\<forall>((name, mode), resolved) \<in> set rs. getProgramResolutions name mode = Inr (Some resolved))) \<and>
    (\<forall>r. recorded (snd (collectResolutionToRefFromCache ops inferredTypesPath cacheType fileName
               cache getName d store getProgramResolutions w)) r =
          recorded w r + count_list (map snd (case cache of None \<Rightarrow> [] | Some c \<Rightarrow> c)) r)"
proof -
  let ?body = "\<lambda>((name, mode), resolved) (expectedCache, w).
                   case collectResolution ops cacheType fileName resolved
                          (getName (objects (actual w) resolved)) name mode d w of
                     (Inl e, w1) \<Rightarrow> (Inl e, (expectedCache, w1))
                   | (Inr expectedResolution, w1) \<Rightarrow>
                       (let cache1 = mapSet (name, mode) expectedResolution
                              (case expectedCache of None \<Rightarrow> [] | Some c \<Rightarrow> c)
                        in (case getProgramResolutions name mode of
                              Inl e \<Rightarrow> Inl e
                            | Inr programResolution \<Rightarrow>
                                assert (Some resolved = programResolution)
                                  (cacheType @ '' '' @ fileName @ '' '' @ name @
                                     '' Expected resolution in cache to be matched to that in the program''),
                            (Some cache1,
                             w1\<lparr>expected :=
                                 store (mapSet fileName cache1) (expected w1)\<rparr>)))"
  let ?xs = "case cache of None \<Rightarrow> [] | Some c \<Rightarrow> c"
  from assms have a: "getSourceFileByPath (actualProgram w) fileName \<noteq> None \<or> inferredTypesPath = fileName"
    and loop: "fst (forEachS ?xs ?body (None, w)) = Inr ()"
    unfolding collectResolutionToRefFromCache_def
    by (auto simp: thenS_ok split: prod.splits)
  have "\<forall>x\<in>set ?xs. \<exists>s'. (\<lambda>s. ()) s' = (\<lambda>s. ()) (None, w) \<and> fst (?body x s') = Inr ()"
    using loop by (rule forEachS_ok_all) simp
  then have each: "\<forall>x\<in>set ?xs. \<exists>s'. fst (?body x s') = Inr ()" by simp
  have b: "\<forall>((name, mode), resolved) \<in> set ?xs. getProgramResolutions name mode = Inr (Some resolved)"
  proof (clarify)
    fix name mode resolved
    assume "((name, mode), resolved) \<in> set ?xs"
    with each obtain c w0 where "fst (?body ((name, mode), resolved) (c, w0)) = Inr ()"
      by fastforce
    then show "getProgramResolutions name mode = Inr (Some resolved)"
      by (auto simp: Let_def split: prod.splits sum.splits)
  qed
  have c: "\<forall>r. recorded (snd (collectResolutionToRefFromCache ops inferredTypesPath cacheType fileName
               cache getName d store getProgramResolutions w)) r =
          recorded w r + count_list (map snd ?xs) r"
  proof
    fix r
    have step: "\<And>x s. recorded (snd (snd (?body x s))) r =
        recorded (snd s) r + (if r = snd x then 1 else 0)"
    proof -
      fix x :: "(string \<times> resolution_mode option) \<times> ref"
        and s :: "ref mode_aware_cache option \<times> ('a, 'b) world"
      obtain name mode resolved where x: "x = ((name, mode), resolved)" by (cases x) auto
      obtain c w0 where s: "s = (c, w0)" by (cases s)
      obtain q w1 where cr: "collectResolution ops cacheType fileName resolved
          (getName (objects (actual w0) resolved)) name mode d w0 = (q, w1)"
        by (cases "collectResolution ops cacheType fileName resolved
          (getName (objects (actual w0) resolved)) name mode d w0")
      have "recorded w1 r = recorded w0 r + (if r = resolved then 1 else 0)"
        using recorded_collectResolution [of ops cacheType fileName resolved
          "getName (objects (actual w0) resolved)" name mode d w0 r] cr by simp
      then show "recorded (snd (snd (?body x s))) r =
          recorded (snd s) r + (if r = snd x then 1 else 0)"
        by (cases q) (simp_all add: x s cr Let_def)
    qed
    have "recorded (snd (snd (forEachS ?xs ?body (None, w)))) r =
        recorded (snd (None :: ref mode_aware_cache option, w)) r +
        sum_list (map (\<lambda>x. if r = snd x then 1 else 0) ?xs)"
      using forEachS_sum_ok [where c = "\<lambda>s. recorded (snd s) r" and f = ?body and xs = ?xs
          and s = "(None, w)" and d = "\<lambda>x. if r = snd x then 1 else 0", OF loop] step
      by simp
    then have "recorded (snd (snd (forEachS ?xs ?body (None, w)))) r =
        recorded w r + count_list (map snd ?xs) r"
      by (simp add: sum_list_indicator)
    moreover have "snd (collectResolutionToRefFromCache ops inferredTypesPath cacheType fileName
               cache getName d store getProgramResolutions w) =
        snd (snd (forEachS ?xs ?body (None, w)))"
      using a unfolding collectResolutionToRefFromCache_def
      by (simp add: snd_thenS_ok split: prod.splits)
    ultimately show "recorded (snd (collectResolutionToRefFromCache ops inferredTypesPath cacheType fileName
               cache getName d store getProgramResolutions w)) r =
          recorded w r + count_list (map snd ?xs) r"
      by simp
  qed
  show ?thesis
    using a b c by (intro conjI) (simp, simp, blast)
qed

lemma collectModules_ok:
  assumes "fst (collectModules host ops (filePath, rs) w) = Inr ()"
  shows "(getSourceFileByPath (actualProgram w) filePath \<noteq> None \<or>
          inferredTypesPathOf host (actualProgram w) = filePath) \<and>
         (\<forall>((name, mode), resolved) \<in> set rs.
            getResolvedModule (actualProgram w)
              (getSourceFileByPath (actualProgram w) filePath) name mode = Inr (Some resolved)) \<and>
         (\<forall>r. recorded (snd (collectModules host ops (filePath, rs) w)) r =
               recorded w r + count_list (map snd rs) r)"
  using collectResolutionToRefFromCache_ok [OF assms [unfolded collectModules_def split_conv]]
  by (simp add: collectModules_def)

lemma collectTypeReferences_ok:
  assumes "fst (collectTypeReferences host ops (filePath, rs) w) = Inr ()"
  shows "(getSourceFileByPath (actualProgram w) filePath \<noteq> None \<or>
          inferredTypesPathOf host (actualProgram w) = filePath) \<and>
         (\<forall>((name, mode), resolved) \<in> set rs.
            (if filePath \<noteq> inferredTypesPathOf host (actualProgram w) then
               getResolvedTypeReferenceDirective (actualProgram w)
                 (getSourceFileByPath (actualProgram w) filePath) name mode
             else
               Inr (map_of (automaticTypeDirectiveResolutions (actualProgram w)) (name, mode)))
            = Inr (Some resolved)) \<and>
         (\<forall>r. recorded (snd (collectTypeReferences host ops (filePath, rs) w)) r =
               recorded w r + count_list (map snd rs) r)"
  using collectResolutionToRefFromCache_ok [OF assms [unfolded collectTypeReferences_def split_conv]]
  by (simp add: collectTypeReferences_def)

lemma recorded_collectLibrary:
  "recorded (snd (collectLibrary host ops x w)) r = recorded w r + (if r = snd x then 1 else 0)"
  unfolding collectLibrary_def
  apply (simp only: split_beta)
  apply (rule adds_bindS)
   apply (rule recorded_collectResolution)
  apply simp
  done

text \<open>The states between the parts of \<open>populateExpected\<close>.\<close>

lemma populateExpected_steps:
  assumes ok: "fst (populateExpected host ops u w) = Inr ()"
  obtains s1 s2 s3 s4 where
    "s1 = snd (onExpected (startCachingPerDirectoryResolution ops) w)"
    "fst (forEachS (resolvedModuleNames (actual w)) (collectModules host ops) s1) = Inr ()"
    "s2 = snd (forEachS (resolvedModuleNames (actual w)) (collectModules host ops) s1)"
    "fst (forEachS (resolvedTypeReferenceDirectives (actual w)) (collectTypeReferences host ops) s2) = Inr ()"
    "s3 = snd (forEachS (resolvedTypeReferenceDirectives (actual w)) (collectTypeReferences host ops) s2)"
    "fst (forEachS (resolvedLibraries (actual w)) (collectLibrary host ops) s3) = Inr ()"
    "s4 = snd (forEachS (resolvedLibraries (actual w)) (collectLibrary host ops) s3)"
    "verifyProgramResolutions host u s4 = Inr ()"
    "snd (populateExpected host ops u w) =
       snd (onExpected (finishCachingPerDirectoryResolution ops (Some (actualProgram w)) None) s4)"
    "live s1 = live w" "live s2 = live w" "live s3 = live w" "live s4 = live w"
proof -
  define s1 where "s1 = snd (onExpected (startCachingPerDirectoryResolution ops) w)"
  define s2 where "s2 = snd (forEachS (resolvedModuleNames (actual s1)) (collectModules host ops) s1)"
  define s3 where "s3 = snd (forEachS (resolvedTypeReferenceDirectives (actual s2)) (collectTypeReferences host ops) s2)"
  define s4 where "s4 = snd (forEachS (resolvedLibraries (actual s3)) (collectLibrary host ops) s3)"
  have l1: "live s1 = live w" by (simp add: s1_def)
  have l2: "live s2 = live w" unfolding s2_def using l1 by (simp add: keeps_forEachS)
  have l3: "live s3 = live w" unfolding s3_def using l2 by (simp add: keeps_forEachS)
  have l4: "live s4 = live w" unfolding s4_def using l3 by (simp add: keeps_forEachS)
  have a1: "actual s1 = actual w" using l1 by (simp add: live_def)
  have a2: "actual s2 = actual w" using l2 by (simp add: live_def)
  have a3: "actual s3 = actual w" using l3 by (simp add: live_def)
  have p4: "actualProgram s4 = actualProgram w" using l4 by (simp add: live_def)
  from ok have o1: "fst (onExpected (startCachingPerDirectoryResolution ops) w) = Inr ()"
    and o2: "fst (forEachS (resolvedModuleNames (actual s1)) (collectModules host ops) s1) = Inr ()"
    and o3: "fst (forEachS (resolvedTypeReferenceDirectives (actual s2)) (collectTypeReferences host ops) s2) = Inr ()"
    and o4: "fst (forEachS (resolvedLibraries (actual s3)) (collectLibrary host ops) s3) = Inr ()"
    and o5: "verifyProgramResolutions host u s4 = Inr ()"
    unfolding populateExpected_def thenS_ok s1_def [symmetric] s2_def [symmetric] s3_def [symmetric]
      s4_def [symmetric]
    by simp_all
  have fin: "snd (populateExpected host ops u w) =
       snd (onExpected (finishCachingPerDirectoryResolution ops (Some (actualProgram w)) None) s4)"
    unfolding populateExpected_def
    using o1 o2 o3 o4 o5
    by (simp add: snd_thenS_ok s1_def [symmetric] s2_def [symmetric] s3_def [symmetric]
        s4_def [symmetric] p4)
  show thesis
  proof (rule that [of s1 s2 s3 s4])
    show "s1 = snd (onExpected (startCachingPerDirectoryResolution ops) w)" by (rule s1_def)
    show "fst (forEachS (resolvedModuleNames (actual w)) (collectModules host ops) s1) = Inr ()"
      using o2 by (simp only: a1)
    show "s2 = snd (forEachS (resolvedModuleNames (actual w)) (collectModules host ops) s1)"
      using s2_def by (simp only: a1)
    show "fst (forEachS (resolvedTypeReferenceDirectives (actual w)) (collectTypeReferences host ops) s2) = Inr ()"
      using o3 by (simp only: a2)
    show "s3 = snd (forEachS (resolvedTypeReferenceDirectives (actual w)) (collectTypeReferences host ops) s2)"
      using s3_def by (simp only: a2)
    show "fst (forEachS (resolvedLibraries (actual w)) (collectLibrary host ops) s3) = Inr ()"
      using o4 by (simp only: a3)
    show "s4 = snd (forEachS (resolvedLibraries (actual w)) (collectLibrary host ops) s3)"
      using s4_def by (simp only: a3)
    show "verifyProgramResolutions host u s4 = Inr ()" by (rule o5)
    show "snd (populateExpected host ops u w) =
       snd (onExpected (finishCachingPerDirectoryResolution ops (Some (actualProgram w)) None) s4)"
      by (rule fin)
    show "live s1 = live w" by (rule l1)
    show "live s2 = live w" by (rule l2)
    show "live s3 = live w" by (rule l3)
    show "live s4 = live w" by (rule l4)
  qed
qed

lemma verifyProgramResolutions_live:
  "live w' = live w \<Longrightarrow> verifyProgramResolutions host u w' = verifyProgramResolutions host u w"
  by (simp add: verifyProgramResolutions_def live_def)

lemma count_list_concat:
  "count_list (concat xss) r = sum_list (map (\<lambda>xs. count_list xs r) xss)"
  by (induction xss) simp_all

lemma populateExpected_ok:
  assumes ok: "fst (populateExpected host ops u w) = Inr ()"
  shows "\<forall>(filePath, rs) \<in> set (resolvedModuleNames (actual w)).
            (getSourceFileByPath (actualProgram w) filePath \<noteq> None \<or>
             inferredTypesPathOf host (actualProgram w) = filePath) \<and>
            (\<forall>((name, mode), resolved) \<in> set rs.
               getResolvedModule (actualProgram w)
                 (getSourceFileByPath (actualProgram w) filePath) name mode = Inr (Some resolved))"
    and "\<forall>(filePath, rs) \<in> set (resolvedTypeReferenceDirectives (actual w)).
            (getSourceFileByPath (actualProgram w) filePath \<noteq> None \<or>
             inferredTypesPathOf host (actualProgram w) = filePath) \<and>
            (\<forall>((name, mode), resolved) \<in> set rs.
               (if filePath \<noteq> inferredTypesPathOf host (actualProgram w) then
                  getResolvedTypeReferenceDirective (actualProgram w)
                    (getSourceFileByPath (actualProgram w) filePath) name mode
                else
                  Inr (map_of (automaticTypeDirectiveResolutions (actualProgram w)) (name, mode)))
               = Inr (Some resolved))"
    and "verifyProgramResolutions host u w = Inr ()"
    and "recorded (snd (populateExpected host ops u w)) r =
           recorded w r + count_list (collected (actual w)) r"
proof -
  from ok obtain s1 s2 s3 s4 where
    s1: "s1 = snd (onExpected (startCachingPerDirectoryResolution ops) w)" and
    o2: "fst (forEachS (resolvedModuleNames (actual w)) (collectModules host ops) s1) = Inr ()" and
    s2: "s2 = snd (forEachS (resolvedModuleNames (actual w)) (collectModules host ops) s1)" and
    o3: "fst (forEachS (resolvedTypeReferenceDirectives (actual w)) (collectTypeReferences host ops) s2) = Inr ()" and
    s3: "s3 = snd (forEachS (resolvedTypeReferenceDirectives (actual w)) (collectTypeReferences host ops) s2)" and
    o4: "fst (forEachS (resolvedLibraries (actual w)) (collectLibrary host ops) s3) = Inr ()" and
    s4: "s4 = snd (forEachS (resolvedLibraries (actual w)) (collectLibrary host ops) s3)" and
    o5: "verifyProgramResolutions host u s4 = Inr ()" and
    fin: "snd (populateExpected host ops u w) =
       snd (onExpected (finishCachingPerDirectoryResolution ops (Some (actualProgram w)) None) s4)" and
    l1: "live s1 = live w" and l2: "live s2 = live w" and l3: "live s3 = live w" and
    l4: "live s4 = live w"
    by (rule populateExpected_steps)
  have mods: "\<forall>x\<in>set (resolvedModuleNames (actual w)).
      \<exists>s'. live s' = live s1 \<and> fst (collectModules host ops x s') = Inr ()"
    using o2 by (rule forEachS_ok_all) simp
  have refs: "\<forall>x\<in>set (resolvedTypeReferenceDirectives (actual w)).
      \<exists>s'. live s' = live s2 \<and> fst (collectTypeReferences host ops x s') = Inr ()"
    using o3 by (rule forEachS_ok_all) simp
  show "\<forall>(filePath, rs) \<in> set (resolvedModuleNames (actual w)).
            (getSourceFileByPath (actualProgram w) filePath \<noteq> None \<or>
             inferredTypesPathOf host (actualProgram w) = filePath) \<and>
            (\<forall>((name, mode), resolved) \<in> set rs.
               getResolvedModule (actualProgram w)
                 (getSourceFileByPath (actualProgram w) filePath) name mode = Inr (Some resolved))"
  proof (clarify)
    fix filePath rs
    assume "(filePath, rs) \<in> set (resolvedModuleNames (actual w))"
    with mods obtain s' where s': "live s' = live s1"
      and b: "fst (collectModules host ops (filePath, rs) s') = Inr ()"
      by blast
    have p: "actualProgram s' = actualProgram w" using s' l1 by (simp add: live_def)
    show "(getSourceFileByPath (actualProgram w) filePath \<noteq> None \<or>
             inferredTypesPathOf host (actualProgram w) = filePath) \<and>
            (\<forall>((name, mode), resolved) \<in> set rs.
               getResolvedModule (actualProgram w)
                 (getSourceFileByPath (actualProgram w) filePath) name mode = Inr (Some resolved))"
      using collectModules_ok [OF b, unfolded p] by simp
  qed
  show "\<forall>(filePath, rs) \<in> set (resolvedTypeReferenceDirectives (actual w)).
            (getSourceFileByPath (actualProgram w) filePath \<noteq> None \<or>
             inferredTypesPathOf host (actualProgram w) = filePath) \<and>
            (\<forall>((name, mode), resolved) \<in> set rs.
               (if filePath \<noteq> inferredTypesPathOf host (actualProgram w) then
                  getResolvedTypeReferenceDirective (actualProgram w)
                    (getSourceFileByPath (actualProgram w) filePath) name mode
                else
                  Inr (map_of (automaticTypeDirectiveResolutions (actualProgram w)) (name, mode)))
               = Inr (Some resolved))"
  proof (clarify)
    fix filePath rs
    assume "(filePath, rs) \<in> set (resolvedTypeReferenceDirectives (actual w))"
    with refs obtain s' where s': "live s' = live s2"
      and b: "fst (collectTypeReferences host ops (filePath, rs) s') = Inr ()"
      by blast
    have p: "actualProgram s' = actualProgram w" using s' l2 by (simp add: live_def)
    show "(getSourceFileByPath (actualProgram w) filePath \<noteq> None \<or>
             inferredTypesPathOf host (actualProgram w) = filePath) \<and>
            (\<forall>((name, mode), resolved) \<in> set rs.
               (if filePath \<noteq> inferredTypesPathOf host (actualProgram w) then
                  getResolvedTypeReferenceDirective (actualProgram w)
                    (getSourceFileByPath (actualProgram w) filePath) name mode
                else
                  Inr (map_of (automaticTypeDirectiveResolutions (actualProgram w)) (name, mode)))
               = Inr (Some resolved))"
      using collectTypeReferences_ok [OF b, unfolded p] by simp
  qed
  show "verifyProgramResolutions host u w = Inr ()"
    using o5 verifyProgramResolutions_live [OF l4] by simp
  have r1: "recorded s1 r = recorded w r" by (simp add: s1)
  have r2: "recorded s2 r = recorded s1 r +
      sum_list (map (\<lambda>x. count_list (map snd (snd x)) r) (resolvedModuleNames (actual w)))"
    unfolding s2
  proof (rule forEachS_sum_ok [OF o2])
    fix x s
    assume "fst (collectModules host ops x s) = Inr ()"
    then show "recorded (snd (collectModules host ops x s)) r =
        recorded s r + count_list (map snd (snd x)) r"
      using collectModules_ok [of host ops "fst x" "snd x" s] by simp
  qed
  have r3: "recorded s3 r = recorded s2 r +
      sum_list (map (\<lambda>x. count_list (map snd (snd x)) r) (resolvedTypeReferenceDirectives (actual w)))"
    unfolding s3
  proof (rule forEachS_sum_ok [OF o3])
    fix x s
    assume "fst (collectTypeReferences host ops x s) = Inr ()"
    then show "recorded (snd (collectTypeReferences host ops x s)) r =
        recorded s r + count_list (map snd (snd x)) r"
      using collectTypeReferences_ok [of host ops "fst x" "snd x" s] by simp
  qed
  have r4: "recorded s4 r = recorded s3 r +
      sum_list (map (\<lambda>x. if r = snd x then 1 else 0) (resolvedLibraries (actual w)))"
    unfolding s4
    by (rule forEachS_sum_ok [OF o4]) (rule recorded_collectLibrary)
  have r5: "recorded (snd (populateExpected host ops u w)) r = recorded s4 r"
    by (simp add: fin)
  show "recorded (snd (populateExpected host ops u w)) r =
           recorded w r + count_list (collected (actual w)) r"
    unfolding r5 r4 r3 r2 r1
    by (simp add: collected_def count_list_concat sum_list_indicator comp_def split_beta)
qed

section \<open>The parts of the verifier\<close>

lemma verifyResolutionCache_ok:
  "fst (verifyResolutionCache host ops a p u) = Inr () \<longleftrightarrow>
     fst (populateExpected host ops u (initialWorld ops a p)) = Inr () \<and>
     verifyRefCount (populated host ops a p u) = Inr () \<and>
     verifyAggregates (populated host ops a p u) = Inr () \<and>
     fst (stopWatching ops (populated host ops a p u)) = Inr () \<and>
     verifyReleased (released host ops a p u) = Inr ()"
  by (simp add: verifyResolutionCache_def thenS_ok populated_def released_def)


lemma actual_populated [simp]:
  "actual (populated host ops a p u) = a" "actualProgram (populated host ops a p u) = p"
  using live_populateExpected [of host ops u "initialWorld ops a p"]
  by (simp_all add: populated_def live_def)

lemma recorded_populated:
  assumes "fst (verifyResolutionCache host ops a p u) = Inr ()"
  shows "recorded (populated host ops a p u) r = count_list (collected a) r"
proof -
  have ok: "fst (populateExpected host ops u (initialWorld ops a p)) = Inr ()"
    using assms by (simp add: verifyResolutionCache_ok)
  have "recorded (initialWorld ops a p) r = 0"
    by (simp add: recorded_def initialWorld_def)
  then show ?thesis
    using populateExpected_ok(4) [OF ok, of r] by (simp add: populated_def)
qed

lemma verifySet_ok: "verifySet e a c = Inr () \<longleftrightarrow> elements e = elements a"
  by (cases e; cases a) (auto simp: verifySet_def forEachOpt_ok elements_def)

lemma assertsOnly_verifySet [intro!, simp]: "assertsOnly (verifySet e a c)"
  unfolding verifySet_def by auto

lemma verifyRefCount_ok:
  "verifyRefCount w = Inr () \<longleftrightarrow>
     (\<forall>(r, info) \<in> set (resolutionToRefs w).
        refCount (objects (actual w) r) = Some (length info) \<and>
        \<not> isInvalidated (objects (actual w) r) \<and>
        (\<exists>e. map_of (resolutionToExpected w) r = Some e \<and>
             refCount (objects (expected w) e) = refCount (objects (actual w) r) \<and>
             elements (resolution.files (objects (expected w) e)) =
             elements (resolution.files (objects (actual w) r))))"
  unfolding verifyRefCount_def
  by (auto simp: forEach_ok verifySet_ok split: option.splits)


lemma assertsOnly_verifyReleased: "assertsOnly (verifyReleased w)"
  unfolding verifyReleased_def by auto

lemma verifyMap_ok:
  "verifyMap (Some ex) (Some ac) verifyValue c = Inr () \<longleftrightarrow>
     (\<forall>(p, e) \<in> set ex. verifyValue (Some e) (map_of ac p) (c @ '':: '' @ p) = Inr ()) \<and>
     (\<forall>(p, a) \<in> set ac. verifyValue (map_of ex p) (Some a) (c @ '':: '' @ p) = Inr ())"
  by (simp add: verifyMap_def forEachOpt_ok split_beta)

lemma assertsOnly_verifyMap:
  "(\<And>e a c. assertsOnly (verifyValue e a c)) \<Longrightarrow> assertsOnly (verifyMap ex ac verifyValue c)"
  unfolding verifyMap_def by auto

lemma verifyDirectoryWatchesOfFailedLookups_ok:
  "verifyDirectoryWatchesOfFailedLookups ex ac = Inr () \<longleftrightarrow>
     (\<forall>(p, e) \<in> set ex. \<exists>a. map_of ac p = Some a \<and>
        directory_watch.refCount e = directory_watch.refCount a \<and>
        directory_watch.refCount e \<noteq> 0 \<and> nonRecursive e = nonRecursive a) \<and>
     (\<forall>(p, a) \<in> set ac. \<exists>e. map_of ex p = Some e \<and>
        directory_watch.refCount e = directory_watch.refCount a \<and>
        directory_watch.refCount e \<noteq> 0 \<and> nonRecursive e = nonRecursive a)"
  unfolding verifyDirectoryWatchesOfFailedLookups_def verifyMap_ok
  by (auto split: option.splits)

lemma assertsOnly_verifyDirectoryWatchesOfFailedLookups:
  "assertsOnly (verifyDirectoryWatchesOfFailedLookups ex ac)"
  unfolding verifyDirectoryWatchesOfFailedLookups_def
  by (rule assertsOnly_verifyMap) auto

lemma verifyFileWatcherOfAffectingLocation_ok:
  "verifyFileWatcherOfAffectingLocation e a c = Inr () \<longleftrightarrow>
     map_option resolutions e = map_option resolutions a \<and>
     map_option file_watcher.files e = map_option file_watcher.files a \<and>
     elements (case e of None \<Rightarrow> None | Some x \<Rightarrow> symlinks x) =
     elements (case a of None \<Rightarrow> None | Some x \<Rightarrow> symlinks x)"
  by (simp add: verifyFileWatcherOfAffectingLocation_def verifySet_ok)

lemma verifyFileWatchesOfAffectingLocations_ok:
  "verifyFileWatchesOfAffectingLocations ex ac = Inr () \<longleftrightarrow>
     (\<forall>(p, e) \<in> set ex. \<exists>a. map_of ac p = Some a \<and>
        resolutions e = resolutions a \<and> file_watcher.files e = file_watcher.files a \<and>
        elements (symlinks e) = elements (symlinks a)) \<and>
     (\<forall>(p, a) \<in> set ac. \<exists>e. map_of ex p = Some e \<and>
        resolutions e = resolutions a \<and> file_watcher.files e = file_watcher.files a \<and>
        elements (symlinks e) = elements (symlinks a))"
  unfolding verifyFileWatchesOfAffectingLocations_def verifyMap_ok verifyFileWatcherOfAffectingLocation_ok
  by (auto split: option.splits)

lemma assertsOnly_verifyFileWatchesOfAffectingLocations:
  "assertsOnly (verifyFileWatchesOfAffectingLocations ex ac)"
  unfolding verifyFileWatchesOfAffectingLocations_def
  by (rule assertsOnly_verifyMap) (auto simp: verifyFileWatcherOfAffectingLocation_def)

lemma verifyAggregates_ok:
  "verifyAggregates w = Inr () \<Longrightarrow>
     verifyDirectoryWatchesOfFailedLookups
       (directoryWatchesOfFailedLookups (expected w))
       (directoryWatchesOfFailedLookups (actual w)) = Inr () \<and>
     verifyFileWatchesOfAffectingLocations
       (fileWatchesOfAffectingLocations (expected w))
       (fileWatchesOfAffectingLocations (actual w)) = Inr ()"
  by (simp add: verifyAggregates_def)

lemma has_map_of: "has m k \<longleftrightarrow> map_of m k \<noteq> None"
  by (simp add: has_def map_of_eq_None_iff)

lemma verifyResolutionIsInCache_ok:
  "verifyResolutionIsInCache er cacheType (map_of perFile filePath) r name mode fileName = Inr () \<longleftrightarrow>
     (if r \<noteq> er then cacheGet perFile filePath name mode = Some r
      else cacheGet perFile filePath name mode = None)"
  by (auto simp: verifyResolutionIsInCache_def cacheGet_def has_map_of split: option.splits)

lemma verifyProgramResolutions_ok:
  "verifyProgramResolutions host u w = Inr () \<longleftrightarrow>
     (\<not> u \<longrightarrow>
        (\<forall>(r, name, mode, filePath) \<in> set (forEachResolvedModule (actualProgram w)).
           if r \<noteq> emptyResolution host
           then cacheGet (resolvedModuleNames (actual w)) filePath name mode = Some r
           else cacheGet (resolvedModuleNames (actual w)) filePath name mode = None)) \<and>
     (\<forall>(r, name, mode, filePath) \<in> set (forEachResolvedTypeReferenceDirective (actualProgram w)).
        if r \<noteq> emptyResolution host
        then cacheGet (resolvedTypeReferenceDirectives (actual w)) filePath name mode = Some r
        else cacheGet (resolvedTypeReferenceDirectives (actual w)) filePath name mode = None) \<and>
     (\<forall>((name, mode), r) \<in> set (automaticTypeDirectiveResolutions (actualProgram w)).
        if r \<noteq> emptyResolution host
        then cacheGet (resolvedTypeReferenceDirectives (actual w))
               (inferredTypesPathOf host (actualProgram w)) name mode = Some r
        else cacheGet (resolvedTypeReferenceDirectives (actual w))
               (inferredTypesPathOf host (actualProgram w)) name mode = None)"
  unfolding verifyProgramResolutions_def
  by (simp add: Let_def forEach_ok verifyResolutionIsInCache_ok split_beta)

lemma verifyResolutionCache_collected:
  assumes ok: "fst (verifyResolutionCache host ops a p u) = Inr ()"
  shows "\<forall>(filePath, rs) \<in> set (resolvedModuleNames a).
            (getSourceFileByPath p filePath \<noteq> None \<or> inferredTypesPathOf host p = filePath) \<and>
            (\<forall>((name, mode), resolved) \<in> set rs.
               getResolvedModule p (getSourceFileByPath p filePath) name mode = Inr (Some resolved))"
    and "\<forall>(filePath, rs) \<in> set (resolvedTypeReferenceDirectives a).
            (getSourceFileByPath p filePath \<noteq> None \<or> inferredTypesPathOf host p = filePath) \<and>
            (\<forall>((name, mode), resolved) \<in> set rs.
               (if filePath \<noteq> inferredTypesPathOf host p then
                  getResolvedTypeReferenceDirective p (getSourceFileByPath p filePath) name mode
                else
                  Inr (map_of (automaticTypeDirectiveResolutions p) (name, mode)))
               = Inr (Some resolved))"
    and "\<not> u \<longrightarrow>
        (\<forall>(r, name, mode, filePath) \<in> set (forEachResolvedModule p).
           if r \<noteq> emptyResolution host
           then cacheGet (resolvedModuleNames a) filePath name mode = Some r
           else cacheGet (resolvedModuleNames a) filePath name mode = None)"
    and "\<forall>(r, name, mode, filePath) \<in> set (forEachResolvedTypeReferenceDirective p).
        if r \<noteq> emptyResolution host
        then cacheGet (resolvedTypeReferenceDirectives a) filePath name mode = Some r
        else cacheGet (resolvedTypeReferenceDirectives a) filePath name mode = None"
    and "\<forall>((name, mode), r) \<in> set (automaticTypeDirectiveResolutions p).
        if r \<noteq> emptyResolution host
        then cacheGet (resolvedTypeReferenceDirectives a) (inferredTypesPathOf host p) name mode = Some r
        else cacheGet (resolvedTypeReferenceDirectives a) (inferredTypesPathOf host p) name mode = None"
proof -
  have pop: "fst (populateExpected host ops u (initialWorld ops a p)) = Inr ()"
    using ok by (simp add: verifyResolutionCache_ok)
  show "\<forall>(filePath, rs) \<in> set (resolvedModuleNames a).
            (getSourceFileByPath p filePath \<noteq> None \<or> inferredTypesPathOf host p = filePath) \<and>
            (\<forall>((name, mode), resolved) \<in> set rs.
               getResolvedModule p (getSourceFileByPath p filePath) name mode = Inr (Some resolved))"
    by (rule populateExpected_ok(1) [OF pop, unfolded initialWorld_live])
  show "\<forall>(filePath, rs) \<in> set (resolvedTypeReferenceDirectives a).
            (getSourceFileByPath p filePath \<noteq> None \<or> inferredTypesPathOf host p = filePath) \<and>
            (\<forall>((name, mode), resolved) \<in> set rs.
               (if filePath \<noteq> inferredTypesPathOf host p then
                  getResolvedTypeReferenceDirective p (getSourceFileByPath p filePath) name mode
                else
                  Inr (map_of (automaticTypeDirectiveResolutions p) (name, mode)))
               = Inr (Some resolved))"
    by (rule populateExpected_ok(2) [OF pop, unfolded initialWorld_live])
  note v' = populateExpected_ok(3) [OF pop, unfolded verifyProgramResolutions_ok initialWorld_live]
  show "\<not> u \<longrightarrow>
        (\<forall>(r, name, mode, filePath) \<in> set (forEachResolvedModule p).
           if r \<noteq> emptyResolution host
           then cacheGet (resolvedModuleNames a) filePath name mode = Some r
           else cacheGet (resolvedModuleNames a) filePath name mode = None)"
    by (rule v' [THEN conjunct1])
  show "\<forall>(r, name, mode, filePath) \<in> set (forEachResolvedTypeReferenceDirective p).
        if r \<noteq> emptyResolution host
        then cacheGet (resolvedTypeReferenceDirectives a) filePath name mode = Some r
        else cacheGet (resolvedTypeReferenceDirectives a) filePath name mode = None"
    by (rule v' [THEN conjunct2, THEN conjunct1])
  show "\<forall>((name, mode), r) \<in> set (automaticTypeDirectiveResolutions p).
        if r \<noteq> emptyResolution host
        then cacheGet (resolvedTypeReferenceDirectives a) (inferredTypesPathOf host p) name mode = Some r
        else cacheGet (resolvedTypeReferenceDirectives a) (inferredTypesPathOf host p) name mode = None"
    by (rule v' [THEN conjunct2, THEN conjunct2])
qed

section \<open>Recorded resolutions are linked\<close>

lemma holds_bindS:
  assumes "I s" and m: "\<And>s. I s \<Longrightarrow> I (snd (m s))" and k: "\<And>x s. I s \<Longrightarrow> I (snd (k x s))"
  shows "I (snd (bindS m k s))"
proof (cases "m s")
  case (Pair r s')
  have s': "I s'" using m [OF assms(1)] Pair by simp
  show ?thesis
  proof (cases r)
    case (Inl e)
    with Pair s' show ?thesis by (simp add: bindS_def)
  next
    case (Inr x)
    with Pair k [OF s', of x] show ?thesis by (simp add: bindS_def)
  qed
qed

lemma holds_thenS:
  assumes "I s" and "\<And>s. I s \<Longrightarrow> I (snd (m s))" and "\<And>s. I s \<Longrightarrow> I (snd (k s))"
  shows "I (snd (thenS m k s))"
  unfolding thenS_def using assms by (rule holds_bindS)

lemma holds_forEachS:
  assumes "I s" and "\<And>x s. x \<in> set xs \<Longrightarrow> I s \<Longrightarrow> I (snd (f x s))"
  shows "I (snd (forEachS xs f s))"
  using assms
proof (induction xs arbitrary: s)
  case Nil
  then show ?case by simp
next
  case (Cons x xs)
  obtain r s' where fx: "f x s = (r, s')" by (cases "f x s")
  have s': "I s'" using Cons.prems(2) [of x s] Cons.prems(1) fx by simp
  show ?case
  proof (cases r)
    case (Inl e)
    with fx s' show ?thesis by simp
  next
    case (Inr u)
    have "I (snd (forEachS xs f s'))" using Cons.IH [OF s'] Cons.prems(2) by simp
    with fx Inr show ?thesis by simp
  qed
qed

lemma linked_onExpected: "linked w \<Longrightarrow> linked (snd (onExpected operation w))"
  by (cases "operation (expected w)") (simp add: onExpected_def linked_def)

lemma linked_expected_update [simp]: "linked (w\<lparr>expected := c\<rparr>) = linked w"
  by (simp add: linked_def)

lemma linked_collectResolution:
  "linked w \<Longrightarrow>
   linked (snd (collectResolution ops cacheType fileName resolved resolvedFileName name mode d w))"
  unfolding collectResolution_def
  apply (erule holds_bindS)
   apply (simp add: linked_def map_of_mapSet Let_def split: option.splits)
  apply (erule holds_thenS)
   apply (erule linked_onExpected)
  apply simp
  done

lemma linked_collectResolutionToRefFromCache:
  assumes "linked w"
  shows "linked (snd (collectResolutionToRefFromCache ops inferredTypesPath cacheType fileName cache
       getName d store getProgramResolutions w))"
proof -
  let ?body = "\<lambda>((name, mode), resolved) (expectedCache, w).
                   case collectResolution ops cacheType fileName resolved
                          (getName (objects (actual w) resolved)) name mode d w of
                     (Inl e, w1) \<Rightarrow> (Inl e, (expectedCache, w1))
                   | (Inr expectedResolution, w1) \<Rightarrow>
                       (let cache1 = mapSet (name, mode) expectedResolution
                              (case expectedCache of None \<Rightarrow> [] | Some c \<Rightarrow> c)
                        in (case getProgramResolutions name mode of
                              Inl e \<Rightarrow> Inl e
                            | Inr programResolution \<Rightarrow>
                                assert (Some resolved = programResolution)
                                  (cacheType @ '' '' @ fileName @ '' '' @ name @
                                     '' Expected resolution in cache to be matched to that in the program''),
                            (Some cache1,
                             w1\<lparr>expected :=
                                 store (mapSet fileName cache1) (expected w1)\<rparr>)))"
  let ?xs = "case cache of None \<Rightarrow> [] | Some c \<Rightarrow> c"
  have step: "\<And>x s. linked (snd s) \<Longrightarrow> linked (snd (snd (?body x s)))"
  proof -
    fix x :: "(string \<times> resolution_mode option) \<times> ref"
      and s :: "ref mode_aware_cache option \<times> ('a, 'b) world"
    assume l: "linked (snd s)"
    obtain name mode resolved where x: "x = ((name, mode), resolved)" by (cases x) auto
    obtain c w0 where s: "s = (c, w0)" by (cases s)
    obtain q w1 where cr: "collectResolution ops cacheType fileName resolved
        (getName (objects (actual w0) resolved)) name mode d w0 = (q, w1)"
      by (cases "collectResolution ops cacheType fileName resolved
        (getName (objects (actual w0) resolved)) name mode d w0")
    have "linked w1"
      using linked_collectResolution [of w0 ops cacheType fileName resolved
        "getName (objects (actual w0) resolved)" name mode d] cr l s by simp
    then show "linked (snd (snd (?body x s)))"
      by (cases q) (simp_all add: x s cr Let_def)
  qed
  have "linked (snd (snd (forEachS ?xs ?body (None, w))))"
    using holds_forEachS [where I = "\<lambda>s. linked (snd s)" and f = ?body and xs = ?xs
        and s = "(None, w)"] step assms
    by simp
  then have loop: "\<And>w'. w' = w \<Longrightarrow> linked (snd (case forEachS ?xs ?body (None, w') of
      (r, (expectedCache, w'')) \<Rightarrow> (r, w'')))"
    by (simp add: split_beta)
  show ?thesis
    unfolding collectResolutionToRefFromCache_def thenS_def bindS_def check_def
    using loop [of w] assms by (simp split: sum.splits)
qed

lemma linked_populateExpected:
  "linked w \<Longrightarrow> linked (snd (populateExpected host ops u w))"
  unfolding populateExpected_def
  apply (erule holds_thenS)
   apply (erule linked_onExpected)
  apply (erule holds_thenS)
   apply (erule holds_forEachS)
   apply (simp add: collectModules_def split_beta linked_collectResolutionToRefFromCache)
  apply (erule holds_thenS)
   apply (erule holds_forEachS)
   apply (simp add: collectTypeReferences_def split_beta linked_collectResolutionToRefFromCache)
  apply (erule holds_thenS)
   apply (erule holds_forEachS)
   apply (simp add: collectLibrary_def split_beta)
   apply (erule holds_bindS)
    apply (erule linked_collectResolution)
   apply (simp add: linked_def)
  apply (erule holds_thenS)
   apply simp
  apply (erule linked_onExpected)
  done

lemma linked_populated: "linked (populated host ops a p u)"
  unfolding populated_def
  by (rule linked_populateExpected) (simp add: linked_def initialWorld_def)

lemma assertsOnly_verifyRefCount: "linked w \<Longrightarrow> assertsOnly (verifyRefCount w)"
  unfolding verifyRefCount_def
proof (rule assertsOnly_forEach)
  fix x
  assume l: "linked w" and x: "x \<in> set (resolutionToRefs w)"
  obtain r info where xr: "x = (r, info)" by (cases x)
  have "map_of (resolutionToRefs w) r \<noteq> None"
    using x xr by (metis map_of_eq_None_iff fst_conv image_eqI)
  then obtain e where "map_of (resolutionToExpected w) r = Some e"
    using l by (auto simp: linked_def)
  then show "assertsOnly (case x of (resolution, info) \<Rightarrow>
       andThen
         (assert (refCount (objects (actual w) resolution) = Some (length info))
            ''Expected Resolution ref count'')
      (andThen
         (assert (\<not> isInvalidated (objects (actual w) resolution))
            ''Resolution should not be invalidated'')
         (case map_of (resolutionToExpected w) resolution of
            None \<Rightarrow> Inl (TypeError ''Cannot read properties of undefined (reading refCount)'')
          | Some expectedResolution \<Rightarrow>
              andThen
                (assert
                   (refCount (objects (expected w) expectedResolution) =
                    refCount (objects (actual w) resolution))
                   ''Expected Resolution ref count'')
                (verifySet
                   (resolution.files (objects (expected w) expectedResolution))
                   (resolution.files (objects (actual w) resolution))
                   ''Resolution files''))))"
    by (auto simp: xr)
qed

section \<open>The verifier throws assertion failures\<close>

text \<open>
  Besides assertion failures, the verifier can throw where it reads a property of
  \<open>undefined\<close>, and where an operation of the shadow cache throws. The first does not
  happen for a resolution that has references recorded, which is linked; it happens
  where the program is queried for a path that has no source file, which the module
  cache allows for the path of the automatic type-directive containing file only.
\<close>

lemma assertsOnly_bindS:
  assumes "assertsOnly (fst (m s))" and "\<And>x. assertsOnly (fst (k x (snd (m s))))"
  shows "assertsOnly (fst (bindS m k s))"
proof (cases "m s")
  case (Pair r s')
  show ?thesis
  proof (cases r)
    case (Inl e)
    with Pair assms(1) show ?thesis by (simp add: bindS_def assertsOnly_def)
  next
    case (Inr x)
    with Pair assms(2) [of x] show ?thesis by (simp add: bindS_def)
  qed
qed

lemma assertsOnly_thenS:
  assumes "assertsOnly (fst (m s))" and "assertsOnly (fst (k (snd (m s))))"
  shows "assertsOnly (fst (thenS m k s))"
  unfolding thenS_def using assms by (rule assertsOnly_bindS)

lemma assertsOnly_forEachS:
  assumes "I s" and "\<And>x s. x \<in> set xs \<Longrightarrow> I s \<Longrightarrow> I (snd (f x s)) \<and> assertsOnly (fst (f x s))"
  shows "assertsOnly (fst (forEachS xs f s))"
  using assms
proof (induction xs arbitrary: s)
  case Nil
  then show ?case by simp
next
  case (Cons x xs)
  obtain r s' where fx: "f x s = (r, s')" by (cases "f x s")
  have s': "I s'" and r: "assertsOnly r"
    using Cons.prems(2) [of x s] Cons.prems(1) fx by simp_all
  show ?case
  proof (cases r)
    case (Inl e)
    with fx r show ?thesis by (simp add: assertsOnly_def)
  next
    case (Inr u)
    have "assertsOnly (fst (forEachS xs f s'))" using Cons.IH [OF s'] Cons.prems(2) by simp
    with fx Inr show ?thesis by simp
  qed
qed

lemma assertsOnly_onExpected:
  "assertsOnly (fst (operation (expected w))) \<Longrightarrow> assertsOnly (fst (onExpected operation w))"
  by (cases "operation (expected w)") (simp add: onExpected_def)

lemma assertsOnly_collectResolution:
  assumes l: "linked w" and ops: "throwsAssertionsOnly ops"
  shows "assertsOnly (fst (collectResolution ops cacheType fileName resolved resolvedName name mode d w))"
  unfolding collectResolution_def
proof (rule assertsOnly_bindS)
  show "assertsOnly (fst (case map_of (resolutionToRefs w) resolved of
          Some existing \<Rightarrow>
            ((case map_of (resolutionToExpected w) resolved of
                None \<Rightarrow> Inl (TypeError ''Cannot read properties of undefined'')
              | Some expectedResolution \<Rightarrow> Inr expectedResolution),
             w\<lparr>resolutionToRefs :=
                 mapSet resolved (existing @ [ResolutionInfo cacheType fileName name mode])
                   (resolutionToRefs w)\<rparr>)
        | None \<Rightarrow>
            (let expectedResolution = created w;
                 r = objects (actual w) resolved
             in (Inr expectedResolution,
                 w\<lparr>resolutionToRefs :=
                     mapSet resolved [ResolutionInfo cacheType fileName name mode]
                       (resolutionToRefs w),
                   created := Suc (created w),
                   expected := (expected w)\<lparr>objects := (objects (expected w))
                     (expectedResolution :=
                        \<lparr>resolvedModule = resolvedModule r,
                         resolvedTypeReferenceDirective = resolvedTypeReferenceDirective r,
                         failedLookupLocations = failedLookupLocations r,
                         affectingLocations = affectingLocations r,
                         node10Result = node10Result r,
                         isInvalidated = False,
                         refCount = None,
                         files = None\<rparr>)\<rparr>,
                   expectedToResolution :=
                     mapSet expectedResolution resolved (expectedToResolution w),
                   resolutionToExpected :=
                     mapSet resolved expectedResolution (resolutionToExpected w)\<rparr>))))"
    using l by (auto simp: linked_def Let_def assertsOnly_def split: option.splits)
next
  fix x s
  show "assertsOnly (fst (thenS
            (onExpected
               (watchFailedLookupLocationsOfExternalModuleResolutions ops name
                  x fileName resolvedName d))
            (returnS x) s))"
    apply (rule assertsOnly_thenS)
     apply (rule assertsOnly_onExpected)
    using ops apply (simp add: throwsAssertionsOnly_def)
    apply (simp add: returnS_def)
    done
qed


lemma assertsOnly_collectResolutionToRefFromCache:
  assumes l: "linked w" and ops: "throwsAssertionsOnly ops"
    and g: "getSourceFileByPath (actualProgram w) fileName \<noteq> None \<or> inferredTypesPath = fileName \<Longrightarrow>
        cache = None \<or> cache = Some [] \<or> (\<forall>name mode. assertsOnly (getProgramResolutions name mode))"
  shows "assertsOnly (fst (collectResolutionToRefFromCache ops inferredTypesPath cacheType fileName cache
       getName d store getProgramResolutions w))"
proof (cases "getSourceFileByPath (actualProgram w) fileName \<noteq> None \<or> inferredTypesPath = fileName")
  case False
  then show ?thesis
    by (simp add: collectResolutionToRefFromCache_def thenS_def bindS_def check_def assert_def
        assertsOnly_def)
next
  case True
  let ?body = "\<lambda>((name, mode), resolved) (expectedCache, w).
                   case collectResolution ops cacheType fileName resolved
                          (getName (objects (actual w) resolved)) name mode d w of
                     (Inl e, w1) \<Rightarrow> (Inl e, (expectedCache, w1))
                   | (Inr expectedResolution, w1) \<Rightarrow>
                       (let cache1 = mapSet (name, mode) expectedResolution
                              (case expectedCache of None \<Rightarrow> [] | Some c \<Rightarrow> c)
                        in (case getProgramResolutions name mode of
                              Inl e \<Rightarrow> Inl e
                            | Inr programResolution \<Rightarrow>
                                assert (Some resolved = programResolution)
                                  (cacheType @ '' '' @ fileName @ '' '' @ name @
                                     '' Expected resolution in cache to be matched to that in the program''),
                            (Some cache1,
                             w1\<lparr>expected :=
                                 store (mapSet fileName cache1) (expected w1)\<rparr>)))"
  let ?xs = "case cache of None \<Rightarrow> [] | Some c \<Rightarrow> c"
  have safe: "?xs = [] \<or> (\<forall>name mode. assertsOnly (getProgramResolutions name mode))"
    using g [OF True] by auto
  have step: "\<And>x s. x \<in> set ?xs \<Longrightarrow> linked (snd s) \<Longrightarrow>
      linked (snd (snd (?body x s))) \<and> assertsOnly (fst (?body x s))"
  proof -
    fix x :: "(string \<times> resolution_mode option) \<times> ref"
      and s :: "ref mode_aware_cache option \<times> ('a, 'b) world"
    assume mem: "x \<in> set ?xs" and l: "linked (snd s)"
    obtain name mode resolved where x: "x = ((name, mode), resolved)" by (cases x) auto
    obtain c w0 where s: "s = (c, w0)" by (cases s)
    obtain q w1 where cr: "collectResolution ops cacheType fileName resolved
        (getName (objects (actual w0) resolved)) name mode d w0 = (q, w1)"
      by (cases "collectResolution ops cacheType fileName resolved
        (getName (objects (actual w0) resolved)) name mode d w0")
    have l1: "linked w1"
      using linked_collectResolution [of w0 ops cacheType fileName resolved
        "getName (objects (actual w0) resolved)" name mode d] cr l s by simp
    have q: "assertsOnly q"
      using assertsOnly_collectResolution [of w0 ops cacheType fileName resolved
        "getName (objects (actual w0) resolved)" name mode d] cr l s ops by simp
    have gp: "assertsOnly (getProgramResolutions name mode)"
      using safe mem by auto
    have A: "linked (snd (snd (?body x s)))"
      using l1 by (cases q) (simp_all add: x s cr Let_def)
    have B: "assertsOnly (fst (?body x s))"
    proof (cases q)
      case (Inl e)
      with q show ?thesis by (simp add: x s cr assertsOnly_def)
    next
      case (Inr er)
      show ?thesis
      proof (cases "getProgramResolutions name mode")
        case (Inl e)
        with gp Inr show ?thesis by (simp add: x s cr Let_def assertsOnly_def)
      next
        case (Inr pr)
        with \<open>q = Inr er\<close> show ?thesis by (simp add: x s cr Let_def)
      qed
    qed
    show "linked (snd (snd (?body x s))) \<and> assertsOnly (fst (?body x s))"
      using A B by (rule conjI)
  qed
  have "assertsOnly (fst (forEachS ?xs ?body (None, w)))"
    using assertsOnly_forEachS [where I = "\<lambda>s. linked (snd s)" and f = ?body and xs = ?xs
        and s = "(None, w)"] step l
    by simp
  then have loop: "\<And>w'. w' = w \<Longrightarrow> assertsOnly (fst (case forEachS ?xs ?body (None, w') of
      (r, (expectedCache, w'')) \<Rightarrow> (r, w'')))"
    by (simp add: split_beta)
  show ?thesis
    unfolding collectResolutionToRefFromCache_def thenS_def bindS_def check_def
    using loop [of w] True by (simp add: assert_def)
qed


lemma safe_thenS:
  assumes "I s" and "\<And>s. I s \<Longrightarrow> I (snd (m s)) \<and> assertsOnly (fst (m s))"
    and "\<And>s. I s \<Longrightarrow> assertsOnly (fst (k s))"
  shows "assertsOnly (fst (thenS m k s))"
proof (rule assertsOnly_thenS)
  show "assertsOnly (fst (m s))" using assms(2) [OF assms(1)] by simp
  have "I (snd (m s))" using assms(2) [OF assms(1)] by simp
  then show "assertsOnly (fst (k (snd (m s))))" by (rule assms(3))
qed

lemma assertsOnly_getResolvedModule:
  "f \<noteq> None \<Longrightarrow> assertsOnly (getResolvedModule prog f name mode)"
  by (cases f) (simp_all add: getResolvedModule_def assertsOnly_def)

lemma assertsOnly_getResolvedTypeReferenceDirective:
  "f \<noteq> None \<Longrightarrow> assertsOnly (getResolvedTypeReferenceDirective prog f name mode)"
  by (cases f) (simp_all add: getResolvedTypeReferenceDirective_def assertsOnly_def)

lemma assertsOnly_collectModules:
  assumes l: "linked w" and ops: "throwsAssertionsOnly ops"
    and h: "filePath = inferredTypesPathOf host (actualProgram w) \<longrightarrow>
        getSourceFileByPath (actualProgram w) filePath \<noteq> None \<or> rs = []"
  shows "assertsOnly (fst (collectModules host ops (filePath, rs) w))"
  unfolding collectModules_def split_conv
proof (rule assertsOnly_collectResolutionToRefFromCache [OF l ops])
  assume "getSourceFileByPath (actualProgram w) filePath \<noteq> None \<or>
      inferredTypesPathOf host (actualProgram w) = filePath"
  then have "getSourceFileByPath (actualProgram w) filePath \<noteq> None \<or> rs = []"
    using h by auto
  then show "Some rs = None \<or> Some rs = Some [] \<or>
      (\<forall>name mode. assertsOnly (getResolvedModule (actualProgram w)
         (getSourceFileByPath (actualProgram w) filePath) name mode))"
    using assertsOnly_getResolvedModule by auto
qed

lemma assertsOnly_collectTypeReferences:
  assumes l: "linked w" and ops: "throwsAssertionsOnly ops"
  shows "assertsOnly (fst (collectTypeReferences host ops (filePath, rs) w))"
  unfolding collectTypeReferences_def split_conv
proof (rule assertsOnly_collectResolutionToRefFromCache [OF l ops])
  assume "getSourceFileByPath (actualProgram w) filePath \<noteq> None \<or>
      inferredTypesPathOf host (actualProgram w) = filePath"
  then have "\<forall>name mode. assertsOnly
      (if filePath \<noteq> inferredTypesPathOf host (actualProgram w) then
         getResolvedTypeReferenceDirective (actualProgram w)
           (getSourceFileByPath (actualProgram w) filePath) name mode
       else Inr (map_of (automaticTypeDirectiveResolutions (actualProgram w)) (name, mode)))"
    using assertsOnly_getResolvedTypeReferenceDirective by (auto simp: assertsOnly_def)
  then show "Some rs = None \<or> Some rs = Some [] \<or>
      (\<forall>name mode. assertsOnly
      (if filePath \<noteq> inferredTypesPathOf host (actualProgram w) then
         getResolvedTypeReferenceDirective (actualProgram w)
           (getSourceFileByPath (actualProgram w) filePath) name mode
       else Inr (map_of (automaticTypeDirectiveResolutions (actualProgram w)) (name, mode))))"
    by simp
qed

lemma assertsOnly_collectLibrary:
  assumes l: "linked w" and ops: "throwsAssertionsOnly ops"
  shows "assertsOnly (fst (collectLibrary host ops x w))"
proof -
  obtain libFileName resolved where x: "x = (libFileName, resolved)" by (cases x)
  show ?thesis
    unfolding collectLibrary_def x split_conv
    by (rule assertsOnly_bindS) (simp_all add: assertsOnly_collectResolution [OF l ops])
qed

lemma assertsOnly_verifyResolutionIsInCache:
  "assertsOnly (verifyResolutionIsInCache er cacheType cache r name mode fileName)"
  by (simp add: verifyResolutionIsInCache_def)

lemma assertsOnly_verifyProgramResolutions:
  "assertsOnly (verifyProgramResolutions host u w)"
  unfolding verifyProgramResolutions_def Let_def
  by (auto simp: assertsOnly_verifyResolutionIsInCache)

lemma assertsOnly_verifyResolutionSet:
  "assertsOnly (verifyResolutionSet etr rte e a c)"
  unfolding verifyResolutionSet_def by auto

lemma assertsOnly_verifyAggregates: "assertsOnly (verifyAggregates w)"
  unfolding verifyAggregates_def verifyMapOfResolutionSet_def
  by (intro assertsOnly_andThen assertsOnly_verifyMap assertsOnly_verifyResolutionSet
      assertsOnly_verifyDirectoryWatchesOfFailedLookups
      assertsOnly_verifyFileWatchesOfAffectingLocations)

lemma assertsOnly_check: "assertsOnly (c s) \<Longrightarrow> assertsOnly (fst (check c s))"
  by (simp add: check_def)


lemma assertsOnly_populateExpected:
  assumes l: "linked w" and ops: "throwsAssertionsOnly ops"
    and h: "\<forall>(filePath, rs) \<in> set (resolvedModuleNames (actual w)).
        filePath = inferredTypesPathOf host (actualProgram w) \<longrightarrow>
        getSourceFileByPath (actualProgram w) filePath \<noteq> None \<or> rs = []"
  shows "assertsOnly (fst (populateExpected host ops u w))"
proof -
  define I where "I = (\<lambda>s :: ('a, 'b) world. linked s \<and> live s = live w)"
  have I0: "I w" by (simp add: I_def l)
  have same: "\<And>s. I s \<Longrightarrow> actual s = actual w \<and> actualProgram s = actualProgram w"
    by (simp add: I_def live_def)
  have on: "\<And>operation s. I s \<Longrightarrow> assertsOnly (fst (operation (expected s))) \<Longrightarrow>
      I (snd (onExpected operation s)) \<and> assertsOnly (fst (onExpected operation s))"
    by (simp add: I_def linked_onExpected assertsOnly_onExpected)
  have s1: "\<And>s. I s \<Longrightarrow> I (snd (onExpected (startCachingPerDirectoryResolution ops) s)) \<and>
      assertsOnly (fst (onExpected (startCachingPerDirectoryResolution ops) s))"
    using ops by (intro on) (simp_all add: throwsAssertionsOnly_def)
  have m: "\<And>x s. x \<in> set (resolvedModuleNames (actual w)) \<Longrightarrow> I s \<Longrightarrow>
      I (snd (collectModules host ops x s)) \<and> assertsOnly (fst (collectModules host ops x s))"
  proof -
    fix x :: "path \<times> ref mode_aware_cache" and s :: "('a, 'b) world"
    assume x: "x \<in> set (resolvedModuleNames (actual w))" and s: "I s"
    obtain filePath rs where xr: "x = (filePath, rs)" by (cases x)
    have hx: "filePath = inferredTypesPathOf host (actualProgram s) \<longrightarrow>
        getSourceFileByPath (actualProgram s) filePath \<noteq> None \<or> rs = []"
      using bspec [OF h x] same [OF s] by (simp add: xr)
    have ls: "linked s" using s by (simp add: I_def)
    have A: "assertsOnly (fst (collectModules host ops x s))"
      unfolding xr by (rule assertsOnly_collectModules [OF ls ops hx])
    have B: "linked (snd (collectModules host ops x s))"
      unfolding xr collectModules_def split_conv
      by (rule linked_collectResolutionToRefFromCache [OF ls])
    show "I (snd (collectModules host ops x s)) \<and> assertsOnly (fst (collectModules host ops x s))"
      using A B s by (simp add: I_def)
  qed
  have s2: "\<And>s. I s \<Longrightarrow>
      I (snd (forEachS (resolvedModuleNames (actual s)) (collectModules host ops) s)) \<and>
      assertsOnly (fst (forEachS (resolvedModuleNames (actual s)) (collectModules host ops) s))"
  proof -
    fix s :: "('a, 'b) world"
    assume s: "I s"
    have a: "actual s = actual w" using same [OF s] by simp
    have A: "I (snd (forEachS (resolvedModuleNames (actual w)) (collectModules host ops) s))"
      by (rule holds_forEachS [where I = I, OF s]) (rule m [THEN conjunct1])
    have B: "assertsOnly (fst (forEachS (resolvedModuleNames (actual w)) (collectModules host ops) s))"
      using s m by (rule assertsOnly_forEachS [where I = I])
    show "I (snd (forEachS (resolvedModuleNames (actual s)) (collectModules host ops) s)) \<and>
      assertsOnly (fst (forEachS (resolvedModuleNames (actual s)) (collectModules host ops) s))"
      unfolding a using A B by (rule conjI)
  qed
  have t: "\<And>x s. I s \<Longrightarrow>
      I (snd (collectTypeReferences host ops x s)) \<and>
      assertsOnly (fst (collectTypeReferences host ops x s))"
  proof -
    fix x :: "path \<times> ref mode_aware_cache" and s :: "('a, 'b) world"
    assume s: "I s"
    obtain filePath rs where xr: "x = (filePath, rs)" by (cases x)
    have ls: "linked s" using s by (simp add: I_def)
    have A: "assertsOnly (fst (collectTypeReferences host ops x s))"
      unfolding xr by (rule assertsOnly_collectTypeReferences [OF ls ops])
    have B: "linked (snd (collectTypeReferences host ops x s))"
      unfolding xr collectTypeReferences_def split_conv
      by (rule linked_collectResolutionToRefFromCache [OF ls])
    show "I (snd (collectTypeReferences host ops x s)) \<and>
      assertsOnly (fst (collectTypeReferences host ops x s))"
      using A B s by (simp add: I_def)
  qed
  have s3: "\<And>s. I s \<Longrightarrow>
      I (snd (forEachS (resolvedTypeReferenceDirectives (actual s)) (collectTypeReferences host ops) s)) \<and>
      assertsOnly (fst (forEachS (resolvedTypeReferenceDirectives (actual s))
        (collectTypeReferences host ops) s))"
  proof -
    fix s :: "('a, 'b) world"
    assume s: "I s"
    have A: "I (snd (forEachS (resolvedTypeReferenceDirectives (actual s))
        (collectTypeReferences host ops) s))"
      by (rule holds_forEachS [where I = I, OF s]) (rule t [THEN conjunct1])
    have B: "assertsOnly (fst (forEachS (resolvedTypeReferenceDirectives (actual s))
        (collectTypeReferences host ops) s))"
      using s t by (rule assertsOnly_forEachS [where I = I])
    show "I (snd (forEachS (resolvedTypeReferenceDirectives (actual s)) (collectTypeReferences host ops) s)) \<and>
      assertsOnly (fst (forEachS (resolvedTypeReferenceDirectives (actual s))
        (collectTypeReferences host ops) s))"
      using A B by (rule conjI)
  qed
  have b: "\<And>x s. I s \<Longrightarrow>
      I (snd (collectLibrary host ops x s)) \<and> assertsOnly (fst (collectLibrary host ops x s))"
  proof -
    fix x :: "string \<times> ref" and s :: "('a, 'b) world"
    assume s: "I s"
    have ls: "linked s" using s by (simp add: I_def)
    have A: "assertsOnly (fst (collectLibrary host ops x s))"
      by (rule assertsOnly_collectLibrary [OF ls ops])
    obtain libFileName resolved where xr: "x = (libFileName, resolved)" by (cases x)
    have B: "linked (snd (collectLibrary host ops x s))"
      unfolding xr collectLibrary_def split_conv
      using ls
      apply (rule holds_bindS)
       apply (erule linked_collectResolution)
      apply (simp add: linked_def)
      done
    show "I (snd (collectLibrary host ops x s)) \<and> assertsOnly (fst (collectLibrary host ops x s))"
      using A B s by (simp add: I_def)
  qed
  have s4: "\<And>s. I s \<Longrightarrow>
      I (snd (forEachS (resolvedLibraries (actual s)) (collectLibrary host ops) s)) \<and>
      assertsOnly (fst (forEachS (resolvedLibraries (actual s)) (collectLibrary host ops) s))"
  proof -
    fix s :: "('a, 'b) world"
    assume s: "I s"
    have A: "I (snd (forEachS (resolvedLibraries (actual s)) (collectLibrary host ops) s))"
      by (rule holds_forEachS [where I = I, OF s]) (rule b [THEN conjunct1])
    have B: "assertsOnly (fst (forEachS (resolvedLibraries (actual s)) (collectLibrary host ops) s))"
      using s b by (rule assertsOnly_forEachS [where I = I])
    show "I (snd (forEachS (resolvedLibraries (actual s)) (collectLibrary host ops) s)) \<and>
      assertsOnly (fst (forEachS (resolvedLibraries (actual s)) (collectLibrary host ops) s))"
      using A B by (rule conjI)
  qed
  have s5: "\<And>s. I s \<Longrightarrow>
      I (snd (check (verifyProgramResolutions host u) s)) \<and>
      assertsOnly (fst (check (verifyProgramResolutions host u) s))"
    by (simp add: check_def assertsOnly_verifyProgramResolutions)
  have s6: "\<And>s. I s \<Longrightarrow>
      assertsOnly (fst (onExpected
        (finishCachingPerDirectoryResolution ops (Some (actualProgram s)) None) s))"
    using ops by (intro on [THEN conjunct2]) (simp_all add: throwsAssertionsOnly_def)
  show ?thesis
    unfolding populateExpected_def
    apply (rule safe_thenS [where I = I, OF I0])
     apply (erule s1)
    apply (erule safe_thenS [where I = I])
     apply (erule s2)
    apply (erule safe_thenS [where I = I])
     apply (erule s3)
    apply (erule safe_thenS [where I = I])
     apply (erule s4)
    apply (erule safe_thenS [where I = I])
     apply (erule s5)
    apply (erule s6)
    done
qed

lemma assertsOnly_stopWatching:
  assumes ops: "throwsAssertionsOnly ops"
  shows "assertsOnly (fst (stopWatching ops w))"
proof -
  have rm: "\<And>x s. assertsOnly (fst ((case x of (filePath, rs :: ref mode_aware_cache) \<Rightarrow>
      onExpected (removeResolutionsOfFile ops filePath)) s))"
    using ops by (auto simp: split_beta throwsAssertionsOnly_def intro!: assertsOnly_onExpected)
  have loop: "\<And>xs s. assertsOnly (fst (forEachS xs (\<lambda>(filePath, rs :: ref mode_aware_cache).
      onExpected (removeResolutionsOfFile ops filePath)) s))"
    by (rule assertsOnly_forEachS [where I = "\<lambda>s. True"]) (simp_all add: rm)
  show ?thesis
    unfolding stopWatching_def
    apply (rule assertsOnly_thenS)
     apply (rule loop)
    apply (rule assertsOnly_thenS)
     apply (rule loop)
    apply (rule assertsOnly_onExpected)
    using ops apply (simp add: throwsAssertionsOnly_def)
    done
qed

lemma verifyResolutionCache_assertsOnly:
  assumes ops: "throwsAssertionsOnly ops"
    and h: "\<forall>(filePath, rs) \<in> set (resolvedModuleNames a).
        filePath = inferredTypesPathOf host p \<longrightarrow> getSourceFileByPath p filePath \<noteq> None \<or> rs = []"
  shows "assertsOnly (fst (verifyResolutionCache host ops a p u))"
proof -
  have l0: "linked (initialWorld ops a p)"
    by (simp add: linked_def initialWorld_def)
  have pop: "assertsOnly (fst (populateExpected host ops u (initialWorld ops a p)))"
    by (rule assertsOnly_populateExpected [OF l0 ops]) (use h in \<open>simp add: initialWorld_def\<close>)
  show ?thesis
    unfolding verifyResolutionCache_def
    apply (rule assertsOnly_thenS [where m = "populateExpected host ops u"
          and s = "initialWorld ops a p"])
     apply (rule pop)
    apply (fold populated_def)
    apply (rule assertsOnly_thenS)
     apply (rule assertsOnly_check)
     apply (rule assertsOnly_verifyRefCount [OF linked_populated])
    apply (rule assertsOnly_thenS)
     apply (rule assertsOnly_check)
     apply (rule assertsOnly_verifyAggregates)
    apply (rule assertsOnly_thenS)
     apply (rule assertsOnly_stopWatching [OF ops])
    apply (rule assertsOnly_check)
    apply (rule assertsOnly_verifyReleased)
    done
qed


lemma throwsAssertionsOnly_specCacheOps: "throwsAssertionsOnly (specCacheOps host)"
  by (simp add: throwsAssertionsOnly_def specCacheOps_def specWatch_def
      specRemoveResolutionsOfFile_def specFinish_def Let_def split: option.splits)

lemma assertsOnly_failure:
  "assertsOnly r \<Longrightarrow> r \<noteq> Inr () \<Longrightarrow> \<exists>m. r = Inl (AssertionFailure m)"
proof (cases r)
  case (Inl e)
  assume "assertsOnly r"
  with Inl show ?thesis by (cases e) (simp_all add: assertsOnly_def)
next
  case (Inr u)
  assume "r \<noteq> Inr ()"
  with Inr show ?thesis by simp
qed

section \<open>Reference counts (C1)\<close>

text \<open>
  Claim C1. When \<open>verifyResolutionCache\<close> returns, every resolution collected from the
  live cache has a reference count equal to the number of (cacheType, file, name, mode)
  references collected for it, is not invalidated, and is linked to an
  \<open>ExpectedResolution\<close> of the shadow cache that has the same reference count and the
  same files (each set is contained in the other; an absent set has no elements). The
  loop that asserts this returns exactly when it holds of every recorded resolution,
  and in the state in which the verifier runs it, it throws nothing but an assertion
  failure.
\<close>

theorem verifyResolutionCache_refCount:
  "(fst (verifyResolutionCache host ops a p u) = Inr () \<longrightarrow>
      (\<forall>r \<in> set (collected a).
         refCount (objects a r) = Some (count_list (collected a) r) \<and>
         \<not> isInvalidated (objects a r) \<and>
         (\<exists>e. map_of (resolutionToExpected (populated host ops a p u)) r = Some e \<and>
              refCount (objects (expected (populated host ops a p u)) e) = refCount (objects a r) \<and>
              elements (resolution.files (objects (expected (populated host ops a p u)) e)) =
              elements (resolution.files (objects a r))))) \<and>
   (verifyRefCount w = Inr () \<longleftrightarrow>
      (\<forall>(r, info) \<in> set (resolutionToRefs w).
         refCount (objects (actual w) r) = Some (length info) \<and>
         \<not> isInvalidated (objects (actual w) r) \<and>
         (\<exists>e. map_of (resolutionToExpected w) r = Some e \<and>
              refCount (objects (expected w) e) = refCount (objects (actual w) r) \<and>
              elements (resolution.files (objects (expected w) e)) =
              elements (resolution.files (objects (actual w) r))))) \<and>
   assertsOnly (verifyRefCount (populated host ops a p u))"
proof (rule conjI, intro impI ballI)
  fix r
  assume ok: "fst (verifyResolutionCache host ops a p u) = Inr ()"
    and r: "r \<in> set (collected a)"
  let ?w = "populated host ops a p u"
  have n: "recorded ?w r = count_list (collected a) r"
    using ok by (rule recorded_populated)
  have "count_list (collected a) r \<noteq> 0"
    using r by (simp add: count_list_0_iff)
  with n obtain info where m: "map_of (resolutionToRefs ?w) r = Some info"
    and len: "length info = count_list (collected a) r"
    by (auto simp: recorded_def split: option.splits)
  have mem: "(r, info) \<in> set (resolutionToRefs ?w)"
    using m by (rule map_of_SomeD)
  have "verifyRefCount ?w = Inr ()"
    using ok by (simp add: verifyResolutionCache_ok)
  then have "\<forall>(r, info) \<in> set (resolutionToRefs ?w).
        refCount (objects (actual ?w) r) = Some (length info) \<and>
        \<not> isInvalidated (objects (actual ?w) r) \<and>
        (\<exists>e. map_of (resolutionToExpected ?w) r = Some e \<and>
             refCount (objects (expected ?w) e) = refCount (objects (actual ?w) r) \<and>
             elements (resolution.files (objects (expected ?w) e)) =
             elements (resolution.files (objects (actual ?w) r)))"
    by (simp only: verifyRefCount_ok)
  from bspec [OF this mem] len
  show "refCount (objects a r) = Some (count_list (collected a) r) \<and>
         \<not> isInvalidated (objects a r) \<and>
         (\<exists>e. map_of (resolutionToExpected ?w) r = Some e \<and>
              refCount (objects (expected ?w) e) = refCount (objects a r) \<and>
              elements (resolution.files (objects (expected ?w) e)) =
              elements (resolution.files (objects a r)))"
    by auto
next
  show "(verifyRefCount w = Inr () \<longleftrightarrow>
      (\<forall>(r, info) \<in> set (resolutionToRefs w).
         refCount (objects (actual w) r) = Some (length info) \<and>
         \<not> isInvalidated (objects (actual w) r) \<and>
         (\<exists>e. map_of (resolutionToExpected w) r = Some e \<and>
              refCount (objects (expected w) e) = refCount (objects (actual w) r) \<and>
              elements (resolution.files (objects (expected w) e)) =
              elements (resolution.files (objects (actual w) r))))) \<and>
   assertsOnly (verifyRefCount (populated host ops a p u))"
    using verifyRefCount_ok [of w] assertsOnly_verifyRefCount [OF linked_populated, of host ops a p u]
    by (rule conjI)
qed

lemma example_returns:
  "fst (verifyResolutionCache exHost (specCacheOps exHost) exCache exProgram False) = Inr ()"
  by code_simp

lemma example_populated:
  "resolutionToRefs (populated exHost (specCacheOps exHost) exCache exProgram False) =
     [(1, [ResolutionInfo ''Modules'' ''/a.ts'' ''bar'' None,
           ResolutionInfo ''Modules'' ''/b.ts'' ''bar'' None])] \<and>
   resolutionToExpected (populated exHost (specCacheOps exHost) exCache exProgram False) = [(1, 0)] \<and>
   refCount (objects (expected (populated exHost (specCacheOps exHost) exCache exProgram False)) 0)
     = Some 2"
  by code_simp

theorem verifyResolutionCache_refCount_witness:
  "fst (verifyResolutionCache exHost (specCacheOps exHost) exCache exProgram False) = Inr () \<and>
   1 \<in> set (collected exCache) \<and>
   count_list (collected exCache) 1 = 2 \<and>
   refCount (objects exCache 1) = Some 2 \<and>
   map_of (resolutionToExpected (populated exHost (specCacheOps exHost) exCache exProgram False)) 1
     = Some 0 \<and>
   refCount (objects (expected (populated exHost (specCacheOps exHost) exCache exProgram False)) 0)
     = Some 2 \<and>
   verifyRefCount (populated exHost (specCacheOps exHost) exCache exProgram False) = Inr ()"
proof -
  let ?w = "populated exHost (specCacheOps exHost) exCache exProgram False"
  note claim = verifyResolutionCache_refCount
    [of exHost "specCacheOps exHost" exCache exProgram False ?w]
  have c: "collected exCache = [1, 1]"
    by (simp add: collected_def exCache_def emptyCache_def)
  have "refCount (objects exCache 1) = Some (count_list (collected exCache) 1) \<and>
     (\<exists>e. map_of (resolutionToExpected ?w) 1 = Some e \<and>
          refCount (objects (expected ?w) e) = refCount (objects exCache 1))"
    using claim [THEN conjunct1, rule_format, OF example_returns, of 1] c by auto
  moreover have "verifyRefCount ?w = Inr ()"
    using claim [THEN conjunct1, rule_format, OF example_returns] c
    by (simp add: claim [THEN conjunct2, THEN conjunct1] example_populated actual_populated)
  ultimately show ?thesis
    using example_returns example_populated c by simp
qed

section \<open>Release (C2)\<close>









section \<open>Directory watches (C5)\<close>

text \<open>
  Claim C5. The directory watches are compared in both directions: the comparison
  returns exactly when every path watched in the shadow cache is watched in the live
  cache, and every path watched in the live cache is watched in the shadow cache, with
  the same reference count, not zero, and the same \<open>nonRecursive\<close> flag; otherwise it
  throws an assertion failure. When \<open>verifyResolutionCache\<close> returns, the comparison of
  the watches of the populated shadow cache with those of the live cache has returned.
\<close>

theorem verifyDirectoryWatchesOfFailedLookups_checks:
  "(verifyDirectoryWatchesOfFailedLookups shadowWatches liveWatches = Inr () \<longleftrightarrow>
      (\<forall>(p, e) \<in> set shadowWatches. \<exists>a. map_of liveWatches p = Some a \<and>
         directory_watch.refCount e = directory_watch.refCount a \<and>
         directory_watch.refCount e \<noteq> 0 \<and> nonRecursive e = nonRecursive a) \<and>
      (\<forall>(p, a) \<in> set liveWatches. \<exists>e. map_of shadowWatches p = Some e \<and>
         directory_watch.refCount e = directory_watch.refCount a \<and>
         directory_watch.refCount e \<noteq> 0 \<and> nonRecursive e = nonRecursive a)) \<and>
   assertsOnly (verifyDirectoryWatchesOfFailedLookups shadowWatches liveWatches) \<and>
   (fst (verifyResolutionCache host ops a p u) = Inr () \<longrightarrow>
      verifyDirectoryWatchesOfFailedLookups
        (directoryWatchesOfFailedLookups (expected (populated host ops a p u)))
        (directoryWatchesOfFailedLookups a) = Inr ())"
proof -
  have A: "verifyDirectoryWatchesOfFailedLookups shadowWatches liveWatches = Inr () \<longleftrightarrow>
      (\<forall>(p, e) \<in> set shadowWatches. \<exists>a. map_of liveWatches p = Some a \<and>
         directory_watch.refCount e = directory_watch.refCount a \<and>
         directory_watch.refCount e \<noteq> 0 \<and> nonRecursive e = nonRecursive a) \<and>
      (\<forall>(p, a) \<in> set liveWatches. \<exists>e. map_of shadowWatches p = Some e \<and>
         directory_watch.refCount e = directory_watch.refCount a \<and>
         directory_watch.refCount e \<noteq> 0 \<and> nonRecursive e = nonRecursive a)"
    by (rule verifyDirectoryWatchesOfFailedLookups_ok)
  have B: "assertsOnly (verifyDirectoryWatchesOfFailedLookups shadowWatches liveWatches)"
    by (rule assertsOnly_verifyDirectoryWatchesOfFailedLookups)
  have C: "fst (verifyResolutionCache host ops a p u) = Inr () \<longrightarrow>
      verifyDirectoryWatchesOfFailedLookups
        (directoryWatchesOfFailedLookups (expected (populated host ops a p u)))
        (directoryWatchesOfFailedLookups a) = Inr ()"
  proof (rule impI)
    assume "fst (verifyResolutionCache host ops a p u) = Inr ()"
    then have "verifyAggregates (populated host ops a p u) = Inr ()"
      by (simp add: verifyResolutionCache_ok)
    from verifyAggregates_ok [OF this]
    show "verifyDirectoryWatchesOfFailedLookups
        (directoryWatchesOfFailedLookups (expected (populated host ops a p u)))
        (directoryWatchesOfFailedLookups a) = Inr ()"
      by simp
  qed
  show ?thesis
    by (rule conjI [OF A conjI [OF B C]])
qed

theorem verifyDirectoryWatchesOfFailedLookups_checks_witness:
  "verifyDirectoryWatchesOfFailedLookups exDirectoryWatches exDirectoryWatches = Inr () \<and>
   (''/src'', \<lparr>directory_watch.refCount = 1, nonRecursive = Some True\<rparr>) \<in> set exDirectoryWatches \<and>
   map_of exDirectoryWatches ''/src'' = Some \<lparr>directory_watch.refCount = 1, nonRecursive = Some True\<rparr> \<and>
   fst (verifyResolutionCache exHost (specCacheOps exHost) exCache exProgram False) = Inr () \<and>
   verifyDirectoryWatchesOfFailedLookups
     (directoryWatchesOfFailedLookups
        (expected (populated exHost (specCacheOps exHost) exCache exProgram False)))
     (directoryWatchesOfFailedLookups exCache) = Inr ()"
proof -
  note claim = verifyDirectoryWatchesOfFailedLookups_checks
    [of exDirectoryWatches exDirectoryWatches exHost "specCacheOps exHost" exCache exProgram False]
  have "(\<forall>(p, e) \<in> set exDirectoryWatches. \<exists>a. map_of exDirectoryWatches p = Some a \<and>
         directory_watch.refCount e = directory_watch.refCount a \<and>
         directory_watch.refCount e \<noteq> 0 \<and> nonRecursive e = nonRecursive a) \<and>
      (\<forall>(p, a) \<in> set exDirectoryWatches. \<exists>e. map_of exDirectoryWatches p = Some e \<and>
         directory_watch.refCount e = directory_watch.refCount a \<and>
         directory_watch.refCount e \<noteq> 0 \<and> nonRecursive e = nonRecursive a)"
    by (simp add: exDirectoryWatches_def)
  then have 1: "verifyDirectoryWatchesOfFailedLookups exDirectoryWatches exDirectoryWatches = Inr ()"
    by (simp only: claim [THEN conjunct1])
  have 2: "verifyDirectoryWatchesOfFailedLookups
     (directoryWatchesOfFailedLookups
        (expected (populated exHost (specCacheOps exHost) exCache exProgram False)))
     (directoryWatchesOfFailedLookups exCache) = Inr ()"
    using claim [THEN conjunct2, THEN conjunct2] example_returns by (rule mp)
  show ?thesis
    using 1 2 example_returns by (simp add: exDirectoryWatches_def)
qed

section \<open>File watches (C6)\<close>

text \<open>
  Claim C6, as stated, does not hold: the resolutions of a file watch are not compared
  through the cross-reference maps. For a shadow watch whose resolutions are the
  expected resolution 10 and a live watch whose resolutions are the live resolution 1,
  with 10 and 1 linked in both maps, the comparison as the spec words it returns and
  the comparison of the source throws.
\<close>

theorem verifyFileWatcherOfAffectingLocation_counterexample:
  "verifyFileWatcherOfAffectingLocation_spec [(10, 1)] [(1, 10)]
     (Some \<lparr>resolutions = [10], file_watcher.files = [''/a.ts''], symlinks = None\<rparr>)
     (Some \<lparr>resolutions = [1], file_watcher.files = [''/a.ts''], symlinks = None\<rparr>)
     ''fileWatchesOfAffectingLocations:: /package.json'' = Inr () \<and>
   verifyFileWatcherOfAffectingLocation
     (Some \<lparr>resolutions = [10 :: nat], file_watcher.files = [''/a.ts''], symlinks = None\<rparr>)
     (Some \<lparr>resolutions = [1], file_watcher.files = [''/a.ts''], symlinks = None\<rparr>)
     ''fileWatchesOfAffectingLocations:: /package.json'' =
   Inl (AssertionFailure ''fileWatchesOfAffectingLocations:: /package.json:: resolutions'')"
  by (simp add: verifyFileWatcherOfAffectingLocation_spec_def
      verifyFileWatcherOfAffectingLocation_def verifyResolutionSet_def verifySet_def
      forEachOpt_def andThen_def assert_def)

text \<open>
  Claim C6, amended. The file watches are compared in both directions: the comparison
  returns exactly when every path watched in the shadow cache is watched in the live
  cache, and every path watched in the live cache is watched in the shadow cache, with
  \<open>resolutions\<close> fields that are strictly equal, \<open>files\<close> fields that are strictly
  equal, and symlink sets that have the same elements; otherwise it throws an assertion
  failure. The cross-reference maps are not arguments of the comparison. When
  \<open>verifyResolutionCache\<close> returns, the comparison of the file watches of the populated
  shadow cache with those of the live cache has returned.
\<close>

theorem verifyFileWatchesOfAffectingLocations_checks:
  "(verifyFileWatchesOfAffectingLocations shadowWatches liveWatches = Inr () \<longleftrightarrow>
      (\<forall>(p, e) \<in> set shadowWatches. \<exists>a. map_of liveWatches p = Some a \<and>
         resolutions e = resolutions a \<and> file_watcher.files e = file_watcher.files a \<and>
         elements (symlinks e) = elements (symlinks a)) \<and>
      (\<forall>(p, a) \<in> set liveWatches. \<exists>e. map_of shadowWatches p = Some e \<and>
         resolutions e = resolutions a \<and> file_watcher.files e = file_watcher.files a \<and>
         elements (symlinks e) = elements (symlinks a))) \<and>
   assertsOnly (verifyFileWatchesOfAffectingLocations shadowWatches liveWatches) \<and>
   (fst (verifyResolutionCache host ops a p u) = Inr () \<longrightarrow>
      verifyFileWatchesOfAffectingLocations
        (fileWatchesOfAffectingLocations (expected (populated host ops a p u)))
        (fileWatchesOfAffectingLocations a) = Inr ())"
proof -
  have A: "verifyFileWatchesOfAffectingLocations shadowWatches liveWatches = Inr () \<longleftrightarrow>
      (\<forall>(p, e) \<in> set shadowWatches. \<exists>a. map_of liveWatches p = Some a \<and>
         resolutions e = resolutions a \<and> file_watcher.files e = file_watcher.files a \<and>
         elements (symlinks e) = elements (symlinks a)) \<and>
      (\<forall>(p, a) \<in> set liveWatches. \<exists>e. map_of shadowWatches p = Some e \<and>
         resolutions e = resolutions a \<and> file_watcher.files e = file_watcher.files a \<and>
         elements (symlinks e) = elements (symlinks a))"
    by (rule verifyFileWatchesOfAffectingLocations_ok)
  have B: "assertsOnly (verifyFileWatchesOfAffectingLocations shadowWatches liveWatches)"
    by (rule assertsOnly_verifyFileWatchesOfAffectingLocations)
  have C: "fst (verifyResolutionCache host ops a p u) = Inr () \<longrightarrow>
      verifyFileWatchesOfAffectingLocations
        (fileWatchesOfAffectingLocations (expected (populated host ops a p u)))
        (fileWatchesOfAffectingLocations a) = Inr ()"
  proof (rule impI)
    assume "fst (verifyResolutionCache host ops a p u) = Inr ()"
    then have "verifyAggregates (populated host ops a p u) = Inr ()"
      by (simp add: verifyResolutionCache_ok)
    from verifyAggregates_ok [OF this]
    show "verifyFileWatchesOfAffectingLocations
        (fileWatchesOfAffectingLocations (expected (populated host ops a p u)))
        (fileWatchesOfAffectingLocations a) = Inr ()"
      by simp
  qed
  show ?thesis
    by (rule conjI [OF A conjI [OF B C]])
qed

theorem verifyFileWatchesOfAffectingLocations_checks_witness:
  "verifyFileWatchesOfAffectingLocations exFileWatches exFileWatches = Inr () \<and>
   map_of exFileWatches ''/package.json'' =
     Some \<lparr>resolutions = 1, file_watcher.files = 2, symlinks = Some [''/link/package.json'']\<rparr> \<and>
   fst (verifyResolutionCache exHost (specCacheOps exHost) exCache exProgram False) = Inr () \<and>
   verifyFileWatchesOfAffectingLocations
     (fileWatchesOfAffectingLocations
        (expected (populated exHost (specCacheOps exHost) exCache exProgram False)))
     (fileWatchesOfAffectingLocations exCache) = Inr ()"
proof -
  note claim = verifyFileWatchesOfAffectingLocations_checks
    [of exFileWatches exFileWatches exHost "specCacheOps exHost" exCache exProgram False]
  have "(\<forall>(p, e) \<in> set exFileWatches. \<exists>a. map_of exFileWatches p = Some a \<and>
         resolutions e = resolutions a \<and> file_watcher.files e = file_watcher.files a \<and>
         elements (symlinks e) = elements (symlinks a)) \<and>
      (\<forall>(p, a) \<in> set exFileWatches. \<exists>e. map_of exFileWatches p = Some e \<and>
         resolutions e = resolutions a \<and> file_watcher.files e = file_watcher.files a \<and>
         elements (symlinks e) = elements (symlinks a))"
    by (simp add: exFileWatches_def)
  then have 1: "verifyFileWatchesOfAffectingLocations exFileWatches exFileWatches = Inr ()"
    by (simp only: claim [THEN conjunct1])
  have 2: "verifyFileWatchesOfAffectingLocations
     (fileWatchesOfAffectingLocations
        (expected (populated exHost (specCacheOps exHost) exCache exProgram False)))
     (fileWatchesOfAffectingLocations exCache) = Inr ()"
    using claim [THEN conjunct2, THEN conjunct2] example_returns by (rule mp)
  show ?thesis
    using 1 2 example_returns by (simp add: exFileWatches_def)
qed

section \<open>The live cache and the program are not written (C8)\<close>

text \<open>
  Claim C8. Whether \<open>verifyResolutionCache\<close> returns or throws, the live cache and the
  program in the state it leaves are the ones it was given: every write of the verifier
  is to the shadow cache or to its own maps. (The operations of the shadow cache are
  functions of the state of the shadow cache.)
\<close>

theorem verifyResolutionCache_frame:
  "actual (snd (verifyResolutionCache host ops a p u)) = a \<and>
   actualProgram (snd (verifyResolutionCache host ops a p u)) = p"
  using live_verifyResolutionCache [of host ops a p u] by (simp add: live_def)

section \<open>Cache entries are for files of the program (C10)\<close>

text \<open>
  Claim C10. When \<open>verifyResolutionCache\<close> returns, every path that has an entry in the
  live cache's \<open>resolvedModuleNames\<close> or \<open>resolvedTypeReferenceDirectives\<close> is the path
  of a source file of the program or the path of the automatic type-directive
  containing file. For any other path the collection throws an assertion failure,
  before it changes the state.
\<close>

theorem verifyResolutionCache_cache_for_program_files:
  "(fst (verifyResolutionCache host ops a p u) = Inr () \<longrightarrow>
      (\<forall>(filePath, resolutions) \<in>
           set (resolvedModuleNames a) \<union> set (resolvedTypeReferenceDirectives a).
         getSourceFileByPath p filePath \<noteq> None \<or> filePath = inferredTypesPathOf host p)) \<and>
   (getSourceFileByPath (actualProgram w) fileName = None \<and> inferredTypesPath \<noteq> fileName \<longrightarrow>
      collectResolutionToRefFromCache ops inferredTypesPath cacheType fileName cache
        getName d store getProgramResolutions w =
      (Inl (AssertionFailure
         (cacheType @ '' '' @ fileName @ '' Expect cache for file in program or auto type ref'')), w))"
proof (rule conjI, rule impI)
  assume ok: "fst (verifyResolutionCache host ops a p u) = Inr ()"
  note c = verifyResolutionCache_collected [OF ok]
  show "\<forall>(filePath, resolutions) \<in> set (resolvedModuleNames a) \<union> set (resolvedTypeReferenceDirectives a).
         getSourceFileByPath p filePath \<noteq> None \<or> filePath = inferredTypesPathOf host p"
  proof (clarify)
    fix filePath resolutions
    assume "(filePath, resolutions) \<in> set (resolvedModuleNames a) \<union> set (resolvedTypeReferenceDirectives a)"
      and "filePath \<noteq> inferredTypesPathOf host p"
    then consider "(filePath, resolutions) \<in> set (resolvedModuleNames a)"
      | "(filePath, resolutions) \<in> set (resolvedTypeReferenceDirectives a)" by blast
    then have "getSourceFileByPath p filePath \<noteq> None \<or> inferredTypesPathOf host p = filePath"
    proof cases
      case 1
      from bspec [OF c(1) 1] show ?thesis by simp
    next
      case 2
      from bspec [OF c(2) 2] show ?thesis by simp
    qed
    with \<open>filePath \<noteq> inferredTypesPathOf host p\<close> show "\<exists>y. getSourceFileByPath p filePath = Some y"
      by auto
  qed
next
  show "getSourceFileByPath (actualProgram w) fileName = None \<and> inferredTypesPath \<noteq> fileName \<longrightarrow>
      collectResolutionToRefFromCache ops inferredTypesPath cacheType fileName cache
        getName d store getProgramResolutions w =
      (Inl (AssertionFailure
         (cacheType @ '' '' @ fileName @ '' Expect cache for file in program or auto type ref'')), w)"
    by (simp add: collectResolutionToRefFromCache_def thenS_def bindS_def check_def assert_def)
qed

theorem verifyResolutionCache_cache_for_program_files_witness:
  "fst (verifyResolutionCache exHost (specCacheOps exHost) exCache exProgram False) = Inr () \<and>
   (''/a.ts'', [((''bar'', None), 1)]) \<in> set (resolvedModuleNames exCache) \<and>
   getSourceFileByPath exProgram ''/a.ts'' \<noteq> None \<and>
   getSourceFileByPath exProgram ''/c.ts'' = None \<and>
   fst (collectResolutionToRefFromCache (specCacheOps exHost) (inferredTypesPathOf exHost exProgram)
     ''Modules'' ''/c.ts'' (Some []) getResolvedModuleFileName True resolvedModuleNames_update
     (\<lambda>name mode. Inr None) (initialWorld (specCacheOps exHost) exCache exProgram)) =
   Inl (AssertionFailure ''Modules /c.ts Expect cache for file in program or auto type ref'')"
proof -
  note claim = verifyResolutionCache_cache_for_program_files
    [where host = exHost and ops = "specCacheOps exHost" and a = exCache and p = exProgram
       and u = False and w = "initialWorld (specCacheOps exHost) exCache exProgram"
       and fileName = "''/c.ts''" and inferredTypesPath = "inferredTypesPathOf exHost exProgram"
       and cacheType = "''Modules''" and cache = "Some []" and getName = getResolvedModuleFileName
       and d = True and store = resolvedModuleNames_update
       and getProgramResolutions = "\<lambda>name mode. Inr None"]
  have m: "(''/a.ts'', [((''bar'', None), 1)]) \<in> set (resolvedModuleNames exCache)"
    by (simp add: exCache_def emptyCache_def)
  have 1: "getSourceFileByPath exProgram ''/a.ts'' \<noteq> None \<or>
      ''/a.ts'' = inferredTypesPathOf exHost exProgram"
    using claim [THEN conjunct1, rule_format, OF example_returns, of "(''/a.ts'', [((''bar'', None), 1)])"] m
    by simp
  have i: "inferredTypesPathOf exHost exProgram = ''/__inferred type names__.ts''"
    by (simp add: inferredTypesPathOf_def exHost_def)
  have n: "getSourceFileByPath exProgram ''/c.ts'' = None"
    by (simp add: getSourceFileByPath_def exProgram_def exFile_def)
  have 2: "collectResolutionToRefFromCache (specCacheOps exHost) (inferredTypesPathOf exHost exProgram)
     ''Modules'' ''/c.ts'' (Some []) getResolvedModuleFileName True resolvedModuleNames_update
     (\<lambda>name mode. Inr None) (initialWorld (specCacheOps exHost) exCache exProgram) =
     (Inl (AssertionFailure (''Modules'' @ '' '' @ ''/c.ts'' @
        '' Expect cache for file in program or auto type ref'')),
      initialWorld (specCacheOps exHost) exCache exProgram)"
    using claim [THEN conjunct2] n i by simp
  show ?thesis
    using example_returns m 1 i n 2 by simp
qed

section \<open>The cache and the program agree (C3)\<close>






text \<open>
  Without the last condition the failure need not be an assertion failure: for a module
  resolution under the path of the automatic type-directive containing file the program
  is queried with an undefined file.
\<close>

lemma example_undefined_file:
  "fst (verifyResolutionCache exHost (specCacheOps exHost) exInferredCache exProgram False) =
     Inl (TypeError ''Cannot read properties of undefined (reading path)'')"
  by code_simp

section \<open>The sentinel is not in the cache (C4)\<close>

text \<open>
  Claim C4, as stated, does not hold: with \<open>userResolvedModuleNames\<close> set, the module
  resolutions of the program are not looked up in the live cache, so that the verifier
  returns although the live cache holds the sentinel under the name of an ambient
  module.
\<close>

theorem verifyResolutionCache_sentinel_counterexample:
  "fst (verifyResolutionCache exHost (specCacheOps exHost) exAmbientCache exAmbientProgram True)
     = Inr () \<and>
   (emptyResolution exHost, ''ambient'', None, ''/a.ts'') \<in> set (forEachResolvedModule exAmbientProgram) \<and>
   cacheGet (resolvedModuleNames exAmbientCache) ''/a.ts'' ''ambient'' None =
     Some (emptyResolution exHost)"
proof -
  have "fst (verifyResolutionCache exHost (specCacheOps exHost) exAmbientCache exAmbientProgram True)
     = Inr ()"
    by code_simp
  then show ?thesis
    by (simp add: forEachResolvedModule_def forEachResolution_def exAmbientProgram_def exHost_def
        cacheGet_def exAmbientCache_def emptyCache_def)
qed

text \<open>
  Claim C4, amended. When \<open>verifyResolutionCache\<close> returns: unless
  \<open>userResolvedModuleNames\<close> is set, the live cache has no entry at any (file, name, mode)
  at which the program's resolved module is the sentinel; it has none where a resolved
  type reference of the program is the sentinel, and none, under the path of the
  automatic type-directive containing file, where an automatic type-directive
  resolution is the sentinel.

  An entry at such a key makes the verifier throw. The lookup of the sentinel throws
  the assertion failure ``Ambient moduleResolution, should not be watched'' when the
  cache has an entry at the key, and otherwise returns; the lookups of all resolutions
  of the program throw nothing but assertion failures. When the live cache has an entry
  at such a key, the verifier as a whole throws an assertion failure, provided that the
  operations of the shadow cache throw nothing else and that the live module cache
  holds no resolution under the path of the automatic type-directive containing file,
  unless that is a source file of the program.
\<close>

theorem verifyResolutionCache_sentinel:
  "(fst (verifyResolutionCache host ops a p u) = Inr () \<longrightarrow>
      (\<not> u \<longrightarrow>
        (\<forall>(r, name, mode, filePath) \<in> set (forEachResolvedModule p).
           r = emptyResolution host \<longrightarrow>
           cacheGet (resolvedModuleNames a) filePath name mode = None)) \<and>
      (\<forall>(r, name, mode, filePath) \<in> set (forEachResolvedTypeReferenceDirective p).
        r = emptyResolution host \<longrightarrow>
        cacheGet (resolvedTypeReferenceDirectives a) filePath name mode = None) \<and>
      (\<forall>((name, mode), r) \<in> set (automaticTypeDirectiveResolutions p).
        r = emptyResolution host \<longrightarrow>
        cacheGet (resolvedTypeReferenceDirectives a) (inferredTypesPathOf host p) name mode = None)) \<and>
   verifyResolutionIsInCache (emptyResolution host) cacheType cache (emptyResolution host)
       name mode fileName =
     (if (case cache of None \<Rightarrow> False | Some c \<Rightarrow> has c (name, mode))
      then Inl (AssertionFailure
        (cacheType @ '':: '' @ name @ '' Ambient moduleResolution, should not be watched '' @
         fileName))
      else Inr ()) \<and>
   assertsOnly (verifyProgramResolutions host u w) \<and>
   (throwsAssertionsOnly ops \<and>
    (\<forall>(filePath, resolutions) \<in> set (resolvedModuleNames a).
       filePath = inferredTypesPathOf host p \<longrightarrow>
       getSourceFileByPath p filePath \<noteq> None \<or> resolutions = []) \<and>
    ((\<not> u \<and>
      (\<exists>(r, name, mode, filePath) \<in> set (forEachResolvedModule p).
         r = emptyResolution host \<and>
         cacheGet (resolvedModuleNames a) filePath name mode \<noteq> None)) \<or>
     (\<exists>(r, name, mode, filePath) \<in> set (forEachResolvedTypeReferenceDirective p).
        r = emptyResolution host \<and>
        cacheGet (resolvedTypeReferenceDirectives a) filePath name mode \<noteq> None) \<or>
     (\<exists>((name, mode), r) \<in> set (automaticTypeDirectiveResolutions p).
        r = emptyResolution host \<and>
        cacheGet (resolvedTypeReferenceDirectives a) (inferredTypesPathOf host p) name mode \<noteq> None)) \<longrightarrow>
    (\<exists>message. fst (verifyResolutionCache host ops a p u) = Inl (AssertionFailure message)))"
proof -
  have A: "fst (verifyResolutionCache host ops a p u) = Inr () \<longrightarrow>
      (\<not> u \<longrightarrow>
        (\<forall>(r, name, mode, filePath) \<in> set (forEachResolvedModule p).
           r = emptyResolution host \<longrightarrow>
           cacheGet (resolvedModuleNames a) filePath name mode = None)) \<and>
      (\<forall>(r, name, mode, filePath) \<in> set (forEachResolvedTypeReferenceDirective p).
        r = emptyResolution host \<longrightarrow>
        cacheGet (resolvedTypeReferenceDirectives a) filePath name mode = None) \<and>
      (\<forall>((name, mode), r) \<in> set (automaticTypeDirectiveResolutions p).
        r = emptyResolution host \<longrightarrow>
        cacheGet (resolvedTypeReferenceDirectives a) (inferredTypesPathOf host p) name mode = None)"
  proof (rule impI)
    assume ok: "fst (verifyResolutionCache host ops a p u) = Inr ()"
    note c = verifyResolutionCache_collected [OF ok]
    have 1: "\<not> u \<longrightarrow>
        (\<forall>(r, name, mode, filePath) \<in> set (forEachResolvedModule p).
           r = emptyResolution host \<longrightarrow>
           cacheGet (resolvedModuleNames a) filePath name mode = None)"
      using c(3) by (simp add: split_beta)
    have 2: "\<forall>(r, name, mode, filePath) \<in> set (forEachResolvedTypeReferenceDirective p).
        r = emptyResolution host \<longrightarrow>
        cacheGet (resolvedTypeReferenceDirectives a) filePath name mode = None"
      using c(4) by (simp add: split_beta)
    have 3: "\<forall>((name, mode), r) \<in> set (automaticTypeDirectiveResolutions p).
        r = emptyResolution host \<longrightarrow>
        cacheGet (resolvedTypeReferenceDirectives a) (inferredTypesPathOf host p) name mode = None"
      using c(5) by (simp add: split_beta)
    show "(\<not> u \<longrightarrow>
        (\<forall>(r, name, mode, filePath) \<in> set (forEachResolvedModule p).
           r = emptyResolution host \<longrightarrow>
           cacheGet (resolvedModuleNames a) filePath name mode = None)) \<and>
      (\<forall>(r, name, mode, filePath) \<in> set (forEachResolvedTypeReferenceDirective p).
        r = emptyResolution host \<longrightarrow>
        cacheGet (resolvedTypeReferenceDirectives a) filePath name mode = None) \<and>
      (\<forall>((name, mode), r) \<in> set (automaticTypeDirectiveResolutions p).
        r = emptyResolution host \<longrightarrow>
        cacheGet (resolvedTypeReferenceDirectives a) (inferredTypesPathOf host p) name mode = None)"
      by (rule conjI [OF 1 conjI [OF 2 3]])
  qed
  have B: "verifyResolutionIsInCache (emptyResolution host) cacheType cache (emptyResolution host)
       name mode fileName =
     (if (case cache of None \<Rightarrow> False | Some c \<Rightarrow> has c (name, mode))
      then Inl (AssertionFailure
        (cacheType @ '':: '' @ name @ '' Ambient moduleResolution, should not be watched '' @
         fileName))
      else Inr ())"
    by (simp add: verifyResolutionIsInCache_def assert_def)
  have C: "assertsOnly (verifyProgramResolutions host u w)"
    by (rule assertsOnly_verifyProgramResolutions)
  have D: "throwsAssertionsOnly ops \<and>
    (\<forall>(filePath, resolutions) \<in> set (resolvedModuleNames a).
       filePath = inferredTypesPathOf host p \<longrightarrow>
       getSourceFileByPath p filePath \<noteq> None \<or> resolutions = []) \<and>
    ((\<not> u \<and>
      (\<exists>(r, name, mode, filePath) \<in> set (forEachResolvedModule p).
         r = emptyResolution host \<and>
         cacheGet (resolvedModuleNames a) filePath name mode \<noteq> None)) \<or>
     (\<exists>(r, name, mode, filePath) \<in> set (forEachResolvedTypeReferenceDirective p).
        r = emptyResolution host \<and>
        cacheGet (resolvedTypeReferenceDirectives a) filePath name mode \<noteq> None) \<or>
     (\<exists>((name, mode), r) \<in> set (automaticTypeDirectiveResolutions p).
        r = emptyResolution host \<and>
        cacheGet (resolvedTypeReferenceDirectives a) (inferredTypesPathOf host p) name mode \<noteq> None)) \<longrightarrow>
    (\<exists>message. fst (verifyResolutionCache host ops a p u) = Inl (AssertionFailure message))"
  proof (rule impI)
    assume h: "throwsAssertionsOnly ops \<and>
      (\<forall>(filePath, resolutions) \<in> set (resolvedModuleNames a).
         filePath = inferredTypesPathOf host p \<longrightarrow>
         getSourceFileByPath p filePath \<noteq> None \<or> resolutions = []) \<and>
      ((\<not> u \<and>
        (\<exists>(r, name, mode, filePath) \<in> set (forEachResolvedModule p).
           r = emptyResolution host \<and>
           cacheGet (resolvedModuleNames a) filePath name mode \<noteq> None)) \<or>
       (\<exists>(r, name, mode, filePath) \<in> set (forEachResolvedTypeReferenceDirective p).
          r = emptyResolution host \<and>
          cacheGet (resolvedTypeReferenceDirectives a) filePath name mode \<noteq> None) \<or>
       (\<exists>((name, mode), r) \<in> set (automaticTypeDirectiveResolutions p).
          r = emptyResolution host \<and>
          cacheGet (resolvedTypeReferenceDirectives a) (inferredTypesPathOf host p) name mode \<noteq> None))"
    have only: "assertsOnly (fst (verifyResolutionCache host ops a p u))"
      by (rule verifyResolutionCache_assertsOnly
          [OF h [THEN conjunct1] h [THEN conjunct2, THEN conjunct1]])
    have "fst (verifyResolutionCache host ops a p u) \<noteq> Inr ()"
    proof
      assume ok: "fst (verifyResolutionCache host ops a p u) = Inr ()"
      note none = A [THEN mp, OF ok]
      from h [THEN conjunct2, THEN conjunct2] none show False
        by (fastforce simp: split_beta)
    qed
    with only show "\<exists>message. fst (verifyResolutionCache host ops a p u) = Inl (AssertionFailure message)"
      by (rule assertsOnly_failure)
  qed
  show ?thesis
    by (rule conjI [OF A conjI [OF B conjI [OF C D]]])
qed

lemma example_ambient_returns:
  "fst (verifyResolutionCache exHost (specCacheOps exHost) (emptyCache ''/'') exAmbientProgram False)
     = Inr ()"
  by code_simp

lemma example_ambient_fails:
  "fst (verifyResolutionCache exHost (specCacheOps exHost) exAmbientCache exAmbientProgram False) =
     Inl (AssertionFailure ''Modules:: ambient Ambient moduleResolution, should not be watched /a.ts'')"
  by code_simp

theorem verifyResolutionCache_sentinel_witness:
  "fst (verifyResolutionCache exHost (specCacheOps exHost) (emptyCache ''/'') exAmbientProgram False)
     = Inr () \<and>
   (emptyResolution exHost, ''ambient'', None, ''/a.ts'') \<in> set (forEachResolvedModule exAmbientProgram) \<and>
   cacheGet (resolvedModuleNames (emptyCache ''/'')) ''/a.ts'' ''ambient'' None = None \<and>
   verifyResolutionIsInCache (emptyResolution exHost) ''Modules''
       (Some [((''ambient'', None), emptyResolution exHost)]) (emptyResolution exHost)
       ''ambient'' None ''/a.ts'' =
     Inl (AssertionFailure ''Modules:: ambient Ambient moduleResolution, should not be watched /a.ts'') \<and>
   throwsAssertionsOnly (specCacheOps exHost) \<and>
   cacheGet (resolvedModuleNames exAmbientCache) ''/a.ts'' ''ambient'' None \<noteq> None \<and>
   (\<exists>message. fst (verifyResolutionCache exHost (specCacheOps exHost) exAmbientCache exAmbientProgram
      False) = Inl (AssertionFailure message)) \<and>
   fst (verifyResolutionCache exHost (specCacheOps exHost) exAmbientCache exAmbientProgram False) =
     Inl (AssertionFailure ''Modules:: ambient Ambient moduleResolution, should not be watched /a.ts'')"
proof -
  note claim = verifyResolutionCache_sentinel
    [where host = exHost and ops = "specCacheOps exHost" and a = "emptyCache ''/''"
       and p = exAmbientProgram and u = False and cacheType = "''Modules''"
       and cache = "Some [((''ambient'', None), emptyResolution exHost)]"
       and name = "''ambient''" and mode = None and fileName = "''/a.ts''"]
  note fails = verifyResolutionCache_sentinel
    [where host = exHost and ops = "specCacheOps exHost" and a = exAmbientCache
       and p = exAmbientProgram and u = False, THEN conjunct2, THEN conjunct2, THEN conjunct2]
  note absent = claim [THEN conjunct1, rule_format, OF example_ambient_returns]
  have m: "(emptyResolution exHost, ''ambient'', None, ''/a.ts'') \<in> set (forEachResolvedModule exAmbientProgram)"
    by (simp add: forEachResolvedModule_def forEachResolution_def exAmbientProgram_def exHost_def)
  have 1: "cacheGet (resolvedModuleNames (emptyCache ''/'')) ''/a.ts'' ''ambient'' None = None"
    using absent [THEN conjunct1, rule_format, OF _ m] by simp
  have 2: "verifyResolutionIsInCache (emptyResolution exHost) ''Modules''
       (Some [((''ambient'', None), emptyResolution exHost)]) (emptyResolution exHost)
       ''ambient'' None ''/a.ts'' =
     Inl (AssertionFailure ''Modules:: ambient Ambient moduleResolution, should not be watched /a.ts'')"
    using claim [THEN conjunct2, THEN conjunct1] by (simp add: has_def)
  have i: "inferredTypesPathOf exHost exAmbientProgram = ''/__inferred type names__.ts''"
    by (simp add: inferredTypesPathOf_def exHost_def)
  have h: "\<forall>(filePath, resolutions) \<in> set (resolvedModuleNames exAmbientCache).
       filePath = inferredTypesPathOf exHost exAmbientProgram \<longrightarrow>
       getSourceFileByPath exAmbientProgram filePath \<noteq> None \<or> resolutions = []"
    by (simp add: i exAmbientCache_def emptyCache_def)
  have 3: "cacheGet (resolvedModuleNames exAmbientCache) ''/a.ts'' ''ambient'' None \<noteq> None"
    by (simp add: cacheGet_def exAmbientCache_def emptyCache_def)
  have e: "\<exists>(r, name, mode, filePath) \<in> set (forEachResolvedModule exAmbientProgram).
         r = emptyResolution exHost \<and>
         cacheGet (resolvedModuleNames exAmbientCache) filePath name mode \<noteq> None"
    using m 3 by (intro bexI [of _ "(emptyResolution exHost, ''ambient'', None, ''/a.ts'')"]) simp_all
  have 4: "\<exists>message. fst (verifyResolutionCache exHost (specCacheOps exHost) exAmbientCache
      exAmbientProgram False) = Inl (AssertionFailure message)"
    using fails throwsAssertionsOnly_specCacheOps h e by blast
  show ?thesis
    using example_ambient_returns m 1 2 throwsAssertionsOnly_specCacheOps 3 4 example_ambient_fails
    by simp
qed

section \<open>Program structure (C9)\<close>

lemma set_insertSorted [simp]: "set (insertSorted c x ys) = insert x (set ys)"
  by (induction ys) auto

lemma mset_insertSorted [simp]: "mset (insertSorted c x ys) = add_mset x (mset ys)"
  by (induction ys) auto




















end
